theory Spec2Isabelle
  imports Main "HOL-Library.Multiset"
begin

section \<open>Sequence differ (notebookCommon: \<open>diff\<close>)\<close>

text \<open>
  \<open>ISplice<T>\<close> of \<open>vs/base/common/sequence\<close>: a replace-range edit
  \<open>{start, deleteCount, toInsert}\<close>. Indices are array indices, counted from 0.
\<close>

record 'a ISplice =
  start :: nat
  deleteCount :: nat
  toInsert :: "'a list"

text \<open>
  The local function \<open>pushSplice\<close> of \<open>diff\<close>. It mutates the array \<open>result\<close>
  of the enclosing call; here it takes that array and returns the updated one.
  \<open>result[result.length - 1]\<close> is \<open>undefined\<close> on the empty array, which the test
  \<open>latest && ...\<close> treats as false.
\<close>

definition pushSplice :: "'a ISplice list \<Rightarrow> nat \<Rightarrow> nat \<Rightarrow> 'a list \<Rightarrow> 'a ISplice list" where
  "pushSplice result st dc ins =
     (if dc = 0 \<and> length ins = 0 then result
      else if result \<noteq> [] \<and> start (last result) + deleteCount (last result) = st
           then butlast result @
                  [(last result)\<lparr>deleteCount := deleteCount (last result) + dc,
                                 toInsert := toInsert (last result) @ ins\<rparr>]
           else result @ [\<lparr>start = st, deleteCount = dc, toInsert = ins\<rparr>])"

text \<open>
  The \<open>while (true)\<close> loop of \<open>diff\<close>, with its two \<open>break\<close>s and its \<open>continue\<close>.
  The loop state is \<open>beforeIdx\<close>, \<open>afterIdx\<close> and the array \<open>result\<close>. The exit
  tests are the equalities of the source, so the function is a partial one: \<open>None\<close>
  stands for a loop that never leaves. \<open>===\<close> on elements is equality on \<open>'a\<close>:
  the elements are values that \<open>===\<close> identifies exactly when they are the same, as
  references to the output objects are; a \<open>NaN\<close>, unequal to itself, is none of them.
\<close>

partial_function (option) diff_loop ::
  "'a list \<Rightarrow> 'a list \<Rightarrow> ('a \<Rightarrow> bool) \<Rightarrow> nat \<Rightarrow> nat \<Rightarrow> 'a ISplice list \<Rightarrow> 'a ISplice list option"
where
  "diff_loop before after contains beforeIdx afterIdx result =
     (if beforeIdx = length before
        then Some (pushSplice result beforeIdx 0 (drop afterIdx after))
      else if afterIdx = length after
        then Some (pushSplice result beforeIdx (length before - beforeIdx) [])
      else if before ! beforeIdx = after ! afterIdx
        then diff_loop before after contains (beforeIdx + 1) (afterIdx + 1) result
      else if contains (after ! afterIdx)
        then diff_loop before after contains (beforeIdx + 1) afterIdx
               (pushSplice result beforeIdx 1 [])
      else diff_loop before after contains beforeIdx (afterIdx + 1)
               (pushSplice result beforeIdx 0 [after ! afterIdx]))"

definition diff :: "'a list \<Rightarrow> 'a list \<Rightarrow> ('a \<Rightarrow> bool) \<Rightarrow> 'a ISplice list option" where
  "diff before after contains = diff_loop before after contains 0 0 []"

text \<open>
  \<open>Array.prototype.splice(start, deleteCount, ...items)\<close> on an array: the start is
  clamped to the length and the delete count to what is left, which \<open>take\<close> and
  \<open>drop\<close> do as well.
\<close>

definition array_splice :: "'a list \<Rightarrow> nat \<Rightarrow> nat \<Rightarrow> 'a list \<Rightarrow> 'a list" where
  "array_splice xs st dc items = take st xs @ items @ drop (st + dc) xs"

text \<open>
  How the extension host applies a list of splices to an array
  (\<open>$spliceNotebookCells\<close>: \<open>splices.reverse().forEach(splice => cells.splice(...))\<close>):
  from the last splice to the first, so that every \<open>start\<close> still is a position of
  the array the splices were computed for.
\<close>

definition applySplices :: "'a ISplice list \<Rightarrow> 'a list \<Rightarrow> 'a list" where
  "applySplices splices xs =
     foldl (\<lambda>acc s. array_splice acc (start s) (deleteCount s) (toInsert s)) xs (rev splices)"

section \<open>Mime-type ordering (notebookCommon: \<open>sortMimeTypes\<close>)\<close>

text \<open>
  \<open>glob.match\<close> of \<open>vs/base/common/glob\<close> and \<open>isWindows\<close> of
  \<open>vs/base/common/platform\<close> are what the ordering code imports from outside the
  files at hand; every function that reaches them takes them as the parameter \<open>P\<close>.
\<close>

record platform =
  isWindows :: bool
  glob_match :: "string \<Rightarrow> string \<Rightarrow> bool"

datatype CellKind = Markdown | Code

datatype CellOutputKind = Text | Error | Rich

text \<open>
  What a call can throw: the runtime's \<open>TypeError\<close> on reading a property of
  \<open>undefined\<close>, or whatever value \<open>'e\<close> code of an extension throws.
\<close>

datatype 'e error = TypeError | Thrown 'e

text \<open>
  \<open>mimeTypeSupportedByCore\<close>: \<open>indexOf(mimeType) > -1\<close> on the fixed array.
\<close>

definition mimeTypeSupportedByCore :: "string \<Rightarrow> bool" where
  "mimeTypeSupportedByCore mimeType =
     (if List.member
          [''application/json'',
           ''application/javascript'',
           ''text/html'',
           ''image/svg+xml'',
           ''text/markdown'',
           ''image/png'',
           ''image/jpeg'',
           ''text/plain'',
           ''text/x-javascript''] mimeType
      then True else False)"

text \<open>
  \<open>matchGlobUniversal\<close>; \<open>replace_slashes\<close> is the \<open>replace\<close> of every slash
  by a backslash (the character \<open>0x5C\<close>).
\<close>

definition replace_slashes :: "string \<Rightarrow> string" where
  "replace_slashes s = map (\<lambda>c. if c = CHR ''/'' then CHR 0x5C else c) s"

definition matchGlobUniversal :: "platform \<Rightarrow> string \<Rightarrow> string \<Rightarrow> bool" where
  "matchGlobUniversal P pattern path =
     (if isWindows P then glob_match P (replace_slashes pattern) (replace_slashes path)
      else glob_match P pattern path)"

text \<open>
  \<open>getMimeTypeOrder\<close> runs three \<open>for\<close> loops over the three lists, sharing the
  counter \<open>order\<close>. \<open>scanDisplayOrder\<close> is one such loop from the counter value it
  is entered with: \<open>Inl order\<close> is the \<open>return order\<close> inside the loop, \<open>Inr order\<close>
  is the loop running to its end, with the counter as it then stands.
\<close>

fun scanDisplayOrder :: "platform \<Rightarrow> string list \<Rightarrow> string \<Rightarrow> nat \<Rightarrow> nat + nat" where
  "scanDisplayOrder P [] mimeType order = Inr order"
| "scanDisplayOrder P (p # ps) mimeType order =
     (if matchGlobUniversal P p mimeType then Inl order
      else scanDisplayOrder P ps mimeType (order + 1))"

definition getMimeTypeOrder :: "platform \<Rightarrow> string \<Rightarrow> string list \<Rightarrow> string list \<Rightarrow> string list \<Rightarrow> nat" where
  "getMimeTypeOrder P mimeType userDisplayOrder documentDisplayOrder defaultOrder =
     (case scanDisplayOrder P userDisplayOrder mimeType 0 of
        Inl order \<Rightarrow> order
      | Inr order \<Rightarrow>
          (case scanDisplayOrder P documentDisplayOrder mimeType order of
             Inl order \<Rightarrow> order
           | Inr order \<Rightarrow>
               (case scanDisplayOrder P defaultOrder mimeType order of
                  Inl order \<Rightarrow> order
                | Inr order \<Rightarrow> order)))"

text \<open>
  \<open>sortMimeTypes\<close> is \<open>mimeTypes.sort((a, b) => order(a) - order(b))\<close>.
  \<open>Array.prototype.sort\<close> is the runtime's; ECMAScript makes it a stable sort, which
  for a comparator that compares keys is \<open>sort_key\<close>.
\<close>

definition sortMimeTypes :: "platform \<Rightarrow> string list \<Rightarrow> string list \<Rightarrow> string list \<Rightarrow> string list \<Rightarrow> string list" where
  "sortMimeTypes P mimeTypes userDisplayOrder documentDisplayOrder defaultOrder =
     sort_key (\<lambda>m. getMimeTypeOrder P m userDisplayOrder documentDisplayOrder defaultOrder) mimeTypes"

section \<open>Output transform (extHostNotebook: \<open>transformMimeTypes\<close>)\<close>

text \<open>
  \<open>IOrderedMimeType\<close>. The optional fields \<open>rendererId?\<close> and \<open>output?\<close> are
  options, \<open>None\<close> for a property that is absent; \<open>output\<close> is written
  \<open>output'\<close>.
\<close>

record IOrderedMimeType =
  mimeType :: string
  isResolved :: bool
  rendererId :: "int option"
  output' :: "string option"

text \<open>
  A rich output \<open>{outputKind, data}\<close> (\<open>vscode.CellDisplayOutput\<close>,
  \<open>IDisplayOutput\<close>). \<open>data\<close> is an object used as a mapping from mime type to
  payload: the list of its properties in the order \<open>Object.keys\<close> enumerates them.
  \<open>ITransformedDisplayOutputDto\<close> has the same two fields and two more.
\<close>

record 'v CellDisplayOutput =
  outputKind :: CellOutputKind
  data :: "(string \<times> 'v) list"

definition object_keys :: "(string \<times> 'v) list \<Rightarrow> string list" where
  "object_keys obj = map fst obj"

record 'v ITransformedDisplayOutputDto = "'v CellDisplayOutput" +
  orderedMimeTypes :: "IOrderedMimeType list"
  pickedMimeTypeIndex :: nat

record INotebookDisplayOrder =
  defaultOrder :: "string list"
  userOrder :: "string list option"

text \<open>
  \<open>ExtHostNotebookOutputRenderer\<close>, with the part \<open>subTypes\<close> of its filter that
  \<open>matches\<close> reads, and the \<open>render\<close> function of the extension's renderer, which
  returns the html or throws. \<open>'d\<close> is the reference to the document that is handed
  to the renderer.
\<close>

record ('d, 'v, 'e) ExtHostNotebookOutputRenderer =
  handle :: int
  filter_subTypes :: "string list option"
  renderer_render :: "'d \<Rightarrow> 'v CellDisplayOutput \<Rightarrow> string \<Rightarrow> 'e error + string"

definition matches :: "('d, 'v, 'e) ExtHostNotebookOutputRenderer \<Rightarrow> string \<Rightarrow> bool" where
  "matches r mime =
     (case filter_subTypes r of
        None \<Rightarrow> False
      | Some subTypes \<Rightarrow> if List.member subTypes mime then True else False)"

definition render ::
  "('d, 'v, 'e) ExtHostNotebookOutputRenderer \<Rightarrow> 'd \<Rightarrow> 'v CellDisplayOutput \<Rightarrow> string \<Rightarrow> 'e error + string" where
  "render r document out mime = renderer_render r document out mime"

text \<open>
  The interface \<open>ExtHostNotebookOutputRenderingHandler\<close> and the fields of
  \<open>ExtHostNotebookDocument\<close> that the transform reads (\<open>docRef\<close> is \<open>this\<close> as a
  reference, \<open>doc_displayOrder\<close> the private \<open>_displayOrder\<close>).
\<close>

record ('d, 'v, 'e) ExtHostNotebookOutputRenderingHandler =
  outputDisplayOrder :: "INotebookDisplayOrder option"
  findBestMatchedRenderer :: "string \<Rightarrow> ('d, 'v, 'e) ExtHostNotebookOutputRenderer list"

record ('d, 'v, 'e) ExtHostNotebookDocument =
  docRef :: 'd
  viewType :: string
  uri :: string
  doc_displayOrder :: "string list"
  renderingHandler :: "('d, 'v, 'e) ExtHostNotebookOutputRenderingHandler"

text \<open>
  A call of a renderer's \<open>render\<close> leaves the extension host; what the model keeps of
  it is a log entry, the handle of the renderer and the mime type it was called for. Every
  function below returns, next to its result, the entries of the calls it made, in order.
\<close>

type_synonym renderCall = "int \<times> string"

text \<open>
  The body of \<open>sorted.forEach(mimeType => ...)\<close>, the same text in
  \<open>transformMimeTypes\<close> and in \<open>_transformMimeTypes\<close>, run over the sorted list. The
  array \<open>orderMimeTypes\<close> it pushes to and the log are passed along. A \<open>render\<close>
  that throws ends the loop and the call: nothing catches it.
\<close>

fun orderMimeTypes_forEach ::
  "(string \<Rightarrow> ('d, 'v, 'e) ExtHostNotebookOutputRenderer list) \<Rightarrow> 'd \<Rightarrow> 'v CellDisplayOutput \<Rightarrow>
   string list \<Rightarrow> IOrderedMimeType list \<Rightarrow> renderCall list \<Rightarrow>
   ('e error + IOrderedMimeType list) \<times> renderCall list" where
  "orderMimeTypes_forEach findRenderer document out [] orderMimeTypes calls = (Inr orderMimeTypes, calls)"
| "orderMimeTypes_forEach findRenderer document out (mime # sortedMimes) orderMimeTypes calls =
     (case findRenderer mime of
        [] \<Rightarrow>
          orderMimeTypes_forEach findRenderer document out sortedMimes
            (orderMimeTypes @
               [\<lparr>mimeType = mime, isResolved = False, rendererId = None, output' = None\<rparr>])
            calls
      | handler0 # handlers \<Rightarrow>
          (case render handler0 document out mime of
             Inl e \<Rightarrow> (Inl e, calls @ [(handle handler0, mime)])
           | Inr renderedOutput \<Rightarrow>
               orderMimeTypes_forEach findRenderer document out sortedMimes
                 (orderMimeTypes @
                    [\<lparr>mimeType = mime, isResolved = True,
                      rendererId = Some (handle handler0), output' = Some renderedOutput\<rparr>] @
                    map (\<lambda>h. \<lparr>mimeType = mime, isResolved = False,
                              rendererId = Some (handle h), output' = None\<rparr>) handlers @
                    (if mimeTypeSupportedByCore mime
                     then [\<lparr>mimeType = mime, isResolved = False,
                            rendererId = Some (- 1), output' = None\<rparr>]
                     else []))
                 (calls @ [(handle handler0, mime)])))"

text \<open>
  The line \<open>const sorted = sortMimeTypes(mimeTypes, coreDisplayOrder?.userOrder || [],
  displayOrder, coreDisplayOrder?.defaultOrder || [])\<close> of both functions.
\<close>

definition sortedMimeTypesFor ::
  "platform \<Rightarrow> INotebookDisplayOrder option \<Rightarrow> string list \<Rightarrow> 'v CellDisplayOutput \<Rightarrow> string list" where
  "sortedMimeTypesFor P coreDisplayOrder order out =
     sortMimeTypes P (object_keys (data out))
       (case coreDisplayOrder of None \<Rightarrow> []
        | Some c \<Rightarrow> (case userOrder c of None \<Rightarrow> [] | Some u \<Rightarrow> u))
       order
       (case coreDisplayOrder of None \<Rightarrow> [] | Some c \<Rightarrow> defaultOrder c)"

definition transformMimeTypes ::
  "platform \<Rightarrow> ('d, 'v, 'e) ExtHostNotebookDocument \<Rightarrow> 'v CellDisplayOutput \<Rightarrow>
   ('e error + 'v ITransformedDisplayOutputDto) \<times> renderCall list" where
  "transformMimeTypes P this out =
     (let coreDisplayOrder = outputDisplayOrder (renderingHandler this);
          sortedMimes = sortedMimeTypesFor P coreDisplayOrder (doc_displayOrder this) out
      in case orderMimeTypes_forEach (findBestMatchedRenderer (renderingHandler this))
                (docRef this) out sortedMimes [] [] of
           (Inl e, calls) \<Rightarrow> (Inl e, calls)
         | (Inr orderMimeTypes, calls) \<Rightarrow>
             (Inr \<lparr>outputKind = outputKind out, data = data out,
                   orderedMimeTypes = orderMimeTypes, pickedMimeTypeIndex = 0\<rparr>, calls))"

section \<open>Callers of the transform\<close>

text \<open>
  A cell output as the extension hands it over (\<open>vscode.CellOutput\<close>): a stream
  output with its text, an error output with \<open>ename\<close>, \<open>evalue\<close>, \<open>traceback\<close>, or
  a rich output. What goes to the main thread (\<open>IOutput\<close>) is a transformed rich output
  or the object that came in, passed on as it is.
\<close>

datatype 'v CellOutput =
    StreamOutput string
  | ErrorOutput "string option" "string option" "string list option"
  | DisplayOutput "'v CellDisplayOutput"

datatype 'v IOutput =
    TransformedDisplayOutput "'v ITransformedDisplayOutputDto"
  | ForwardedOutput "'v CellOutput"

text \<open>
  \<open>Set.add\<close> on a set kept in insertion order, as \<open>Array.from\<close> reads it.
\<close>

definition set_add :: "'a list \<Rightarrow> 'a \<Rightarrow> 'a list" where
  "set_add s x = (if List.member s x then s else s @ [x])"

text \<open>
  The callback of \<open>outputs.map(output => ...)\<close>, the same in
  \<open>eventuallyUpdateCellOutputs\<close> and \<open>$resolveNotebookData\<close> up to the transform
  called. Reading \<open>.isResolved\<close> of \<open>ret.orderedMimeTypes[ret.pickedMimeTypeIndex]\<close>
  throws a \<open>TypeError\<close> when the index is past the end. \<open>rendererId!\<close> asserts
  nothing at run time: the set receives the field as it is.
\<close>

fun transformOutput ::
  "('v CellDisplayOutput \<Rightarrow> ('e error + 'v ITransformedDisplayOutputDto) \<times> renderCall list) \<Rightarrow>
   'v CellOutput \<Rightarrow> int option list \<Rightarrow>
   ('e error + 'v IOutput \<times> int option list) \<times> renderCall list" where
  "transformOutput transform (DisplayOutput out) renderers =
     (if outputKind out = Rich then
        (case transform out of
           (Inl e, calls) \<Rightarrow> (Inl e, calls)
         | (Inr ret, calls) \<Rightarrow>
             (if pickedMimeTypeIndex ret < length (orderedMimeTypes ret) then
                (let picked = orderedMimeTypes ret ! pickedMimeTypeIndex ret
                 in (Inr (TransformedDisplayOutput ret,
                          if isResolved picked then set_add renderers (rendererId picked)
                          else renderers), calls))
              else (Inl TypeError, calls)))
      else (Inr (ForwardedOutput (DisplayOutput out), renderers), []))"
| "transformOutput transform other renderers = (Inr (ForwardedOutput other, renderers), [])"

fun transformOutputs ::
  "('v CellDisplayOutput \<Rightarrow> ('e error + 'v ITransformedDisplayOutputDto) \<times> renderCall list) \<Rightarrow>
   'v CellOutput list \<Rightarrow> int option list \<Rightarrow>
   ('e error + 'v IOutput list \<times> int option list) \<times> renderCall list" where
  "transformOutputs transform [] renderers = (Inr ([], renderers), [])"
| "transformOutputs transform (out # outs) renderers =
     (case transformOutput transform out renderers of
        (Inl e, calls) \<Rightarrow> (Inl e, calls)
      | (Inr (ret, renderers1), calls) \<Rightarrow>
          (case transformOutputs transform outs renderers1 of
             (Inl e, calls1) \<Rightarrow> (Inl e, calls @ calls1)
           | (Inr (rets, renderers2), calls1) \<Rightarrow> (Inr (ret # rets, renderers2), calls @ calls1)))"

type_synonym 'v NotebookCellOutputsSplice = "nat \<times> nat \<times> 'v IOutput list"

text \<open>
  \<open>diffs.map(diff => [diff.start, diff.deleteCount, transformedOutputs])\<close>.
\<close>

fun outputDtos_map ::
  "('v CellDisplayOutput \<Rightarrow> ('e error + 'v ITransformedDisplayOutputDto) \<times> renderCall list) \<Rightarrow>
   'v CellOutput ISplice list \<Rightarrow> int option list \<Rightarrow>
   ('e error + 'v NotebookCellOutputsSplice list \<times> int option list) \<times> renderCall list" where
  "outputDtos_map transform [] renderers = (Inr ([], renderers), [])"
| "outputDtos_map transform (d # diffs) renderers =
     (case transformOutputs transform (toInsert d) renderers of
        (Inl e, calls) \<Rightarrow> (Inl e, calls)
      | (Inr (transformedOutputs, renderers1), calls) \<Rightarrow>
          (case outputDtos_map transform diffs renderers1 of
             (Inl e, calls1) \<Rightarrow> (Inl e, calls @ calls1)
           | (Inr (dtos, renderers2), calls1) \<Rightarrow>
               (Inr ((start d, deleteCount d, transformedOutputs) # dtos, renderers2),
                calls @ calls1)))"

record ExtHostCell =
  cell_handle :: int

text \<open>
  \<open>eventuallyUpdateCellOutputs\<close> ends in the remote call
  \<open>$spliceNotebookCellOutputs(viewType, uri, cell.handle, outputDtos, renderers)\<close>; its
  result here is the arguments of that call.
\<close>

record 'v spliceNotebookCellOutputs_args =
  arg_viewType :: string
  arg_resource :: string
  arg_cellHandle :: int
  arg_splices :: "'v NotebookCellOutputsSplice list"
  arg_renderers :: "int option list"

definition eventuallyUpdateCellOutputs ::
  "platform \<Rightarrow> ('d, 'v, 'e) ExtHostNotebookDocument \<Rightarrow> ExtHostCell \<Rightarrow> 'v CellOutput ISplice list \<Rightarrow>
   ('e error + 'v spliceNotebookCellOutputs_args) \<times> renderCall list" where
  "eventuallyUpdateCellOutputs P this cell diffs =
     (case outputDtos_map (transformMimeTypes P this) diffs [] of
        (Inl e, calls) \<Rightarrow> (Inl e, calls)
      | (Inr (outputDtos, renderers), calls) \<Rightarrow>
          (Inr \<lparr>arg_viewType = viewType this, arg_resource = uri this,
                arg_cellHandle = cell_handle cell, arg_splices = outputDtos,
                arg_renderers = renderers\<rparr>, calls))"

record NotebookDocumentMetadata =
  editable :: bool
  runnable :: bool
  cellEditable :: bool
  cellRunnable :: bool
  hasExecutionOrder :: bool
  displayOrder :: "string list option"

definition NOTEBOOK_DISPLAY_ORDER :: "string list" where
  "NOTEBOOK_DISPLAY_ORDER =
     [''application/json'',
      ''application/javascript'',
      ''text/html'',
      ''image/svg+xml'',
      ''text/markdown'',
      ''image/png'',
      ''image/jpeg'',
      ''text/plain'']"

definition notebookDocumentMetadataDefaults :: NotebookDocumentMetadata where
  "notebookDocumentMetadataDefaults =
     \<lparr>editable = True, runnable = True, cellEditable = True, cellRunnable = True,
      hasExecutionOrder = True, displayOrder = Some NOTEBOOK_DISPLAY_ORDER\<rparr>"

text \<open>
  \<open>{...notebookDocumentMetadataDefaults, ...rawCells.metadata}\<close>: the properties
  present in the second object win. \<open>displayOrder\<close> is the one optional property;
  \<open>None\<close> is the property being absent (one that is present and \<open>undefined\<close>
  is not told apart from it).
\<close>

definition spread_metadata :: "NotebookDocumentMetadata \<Rightarrow> NotebookDocumentMetadata \<Rightarrow> NotebookDocumentMetadata" where
  "spread_metadata defaults m =
     m\<lparr>displayOrder := (case displayOrder m of None \<Rightarrow> displayOrder defaults | Some order \<Rightarrow> Some order)\<rparr>"

record ('o, 's, 'cm) NotebookCellData =
  language :: string
  cellKind :: CellKind
  metadata :: 'cm
  source :: 's
  outputs :: "'o list"

record 'c NotebookData =
  cells :: "'c list"
  languages :: "string list"
  notebook_metadata :: NotebookDocumentMetadata

record ('v, 's, 'cm, 'e) NotebookContentProvider =
  openNotebook :: "string \<Rightarrow> 'e error + ('v CellOutput, 's, 'cm) NotebookCellData NotebookData"

text \<open>
  The fields of \<open>ExtHostNotebookController\<close> read here. The map of renderers is
  the list of its values in insertion order, as iterating it gives them.
\<close>

record ('d, 'v, 's, 'cm, 'e) ExtHostNotebookController =
  notebookContentProviders :: "string \<rightharpoonup> ('v, 's, 'cm, 'e) NotebookContentProvider"
  documents :: "string \<rightharpoonup> 'd"
  notebookOutputRenderers :: "('d, 'v, 'e) ExtHostNotebookOutputRenderer list"
  controller_outputDisplayOrder :: "INotebookDisplayOrder option"

definition controller_findBestMatchedRenderer ::
  "('d, 'v, 's, 'cm, 'e) ExtHostNotebookController \<Rightarrow> string \<Rightarrow> ('d, 'v, 'e) ExtHostNotebookOutputRenderer list" where
  "controller_findBestMatchedRenderer this mime =
     filter (\<lambda>renderer. matches renderer mime) (notebookOutputRenderers this)"

text \<open>
  \<open>_transformMimeTypes(document, displayOrder, output)\<close> of the controller.
\<close>

definition controller_transformMimeTypes ::
  "platform \<Rightarrow> ('d, 'v, 's, 'cm, 'e) ExtHostNotebookController \<Rightarrow> 'd \<Rightarrow> string list \<Rightarrow> 'v CellDisplayOutput \<Rightarrow>
   ('e error + 'v ITransformedDisplayOutputDto) \<times> renderCall list" where
  "controller_transformMimeTypes P this document order out =
     (let coreDisplayOrder = controller_outputDisplayOrder this;
          sortedMimes = sortedMimeTypesFor P coreDisplayOrder order out
      in case orderMimeTypes_forEach (controller_findBestMatchedRenderer this)
                document out sortedMimes [] [] of
           (Inl e, calls) \<Rightarrow> (Inl e, calls)
         | (Inr orderMimeTypes, calls) \<Rightarrow>
             (Inr \<lparr>outputKind = outputKind out, data = data out,
                   orderedMimeTypes = orderMimeTypes, pickedMimeTypeIndex = 0\<rparr>, calls))"

text \<open>
  \<open>$resolveNotebookData\<close>: \<open>rawCells.cells.map(cell => ...)\<close> and the function
  around it. A rejected \<open>openNotebook\<close> rejects the call; without provider or
  document the result is \<open>undefined\<close>.
\<close>

fun cells_map ::
  "('v CellDisplayOutput \<Rightarrow> ('e error + 'v ITransformedDisplayOutputDto) \<times> renderCall list) \<Rightarrow>
   ('v CellOutput, 's, 'cm) NotebookCellData list \<Rightarrow> int option list \<Rightarrow>
   ('e error + ('v IOutput, 's, 'cm) NotebookCellData list \<times> int option list) \<times> renderCall list" where
  "cells_map transform [] renderers = (Inr ([], renderers), [])"
| "cells_map transform (cell # rest) renderers =
     (case transformOutputs transform (outputs cell) renderers of
        (Inl e, calls) \<Rightarrow> (Inl e, calls)
      | (Inr (transformedOutputs, renderers1), calls) \<Rightarrow>
          (case cells_map transform rest renderers1 of
             (Inl e, calls1) \<Rightarrow> (Inl e, calls @ calls1)
           | (Inr (dtos, renderers2), calls1) \<Rightarrow>
               (Inr (\<lparr>language = language cell, cellKind = cellKind cell,
                      metadata = metadata cell, source = source cell,
                      outputs = transformedOutputs\<rparr> # dtos, renderers2),
                calls @ calls1)))"

definition resolveNotebookData ::
  "platform \<Rightarrow> ('d, 'v, 's, 'cm, 'e) ExtHostNotebookController \<Rightarrow> string \<Rightarrow> string \<Rightarrow>
   ('e error + ('v IOutput, 's, 'cm) NotebookCellData NotebookData option) \<times> renderCall list" where
  "resolveNotebookData P this view resource =
     (case (notebookContentProviders this view, documents this resource) of
        (Some provider, Some document) \<Rightarrow>
          (case openNotebook provider resource of
             Inl e \<Rightarrow> (Inl e, [])
           | Inr rawCells \<Rightarrow>
               (case cells_map
                       (controller_transformMimeTypes P this document
                          (case displayOrder (notebook_metadata rawCells) of
                             None \<Rightarrow> [] | Some order \<Rightarrow> order))
                       (cells rawCells) [] of
                  (Inl e, calls) \<Rightarrow> (Inl e, calls)
                | (Inr (cellDtos, renderers), calls) \<Rightarrow>
                    (Inr (Some \<lparr>cells = cellDtos, languages = languages rawCells,
                                notebook_metadata =
                                  spread_metadata notebookDocumentMetadataDefaults
                                    (notebook_metadata rawCells)\<rparr>), calls)))
      | _ \<Rightarrow> (Inr None, []))"

section \<open>Vocabulary of the statements\<close>

subsection \<open>Splice lists\<close>

text \<open>
  \<open>sEnd s\<close> is the first position after the range a splice deletes. A list of
  splices is \<open>separated\<close> when none of them is a no-op and each one starts strictly
  after the end of the one before it; \<open>endsBy res n\<close> bounds the end of the last one.
  \<open>diff_inv\<close> is what holds of the loop state of \<open>diff\<close> each time round.
\<close>

definition sEnd :: "'a ISplice \<Rightarrow> nat" where
  "sEnd s = start s + deleteCount s"

definition isNoop :: "'a ISplice \<Rightarrow> bool" where
  "isNoop s = (deleteCount s = 0 \<and> toInsert s = [])"

fun separated :: "'a ISplice list \<Rightarrow> bool" where
  "separated [] = True"
| "separated [s] = (\<not> isNoop s)"
| "separated (s # t # ss) = (\<not> isNoop s \<and> sEnd s < start t \<and> separated (t # ss))"

definition endsBy :: "'a ISplice list \<Rightarrow> nat \<Rightarrow> bool" where
  "endsBy res n = (res = [] \<or> sEnd (last res) \<le> n)"

definition diff_inv :: "'a list \<Rightarrow> 'a list \<Rightarrow> nat \<Rightarrow> nat \<Rightarrow> 'a ISplice list \<Rightarrow> bool" where
  "diff_inv before after i j res =
     (i \<le> length before \<and> j \<le> length after \<and> separated res \<and> endsBy res i \<and>
      applySplices res (take i before) = take j after)"

text \<open>
  Applying the splices in the order of the list instead, each to the array the one before
  it has left, for comparison with \<open>applySplices\<close>.
\<close>

definition applySplices_forward :: "'a ISplice list \<Rightarrow> 'a list \<Rightarrow> 'a list" where
  "applySplices_forward splices xs =
     foldl (\<lambda>acc s. array_splice acc (start s) (deleteCount s) (toInsert s)) xs splices"

subsection \<open>Ranks\<close>

text \<open>
  The rank of a mime type as the specification words it: the index of the first pattern
  of the user order that matches; failing that, of the document order, counted on from
  the length of the user order; failing that, of the default order, counted on further;
  and the combined length of the three lists when nothing matches.
\<close>

fun firstMatch :: "platform \<Rightarrow> string list \<Rightarrow> string \<Rightarrow> nat option" where
  "firstMatch P [] mime = None"
| "firstMatch P (p # ps) mime =
     (if matchGlobUniversal P p mime then Some 0 else map_option Suc (firstMatch P ps mime))"

definition rank_spec :: "platform \<Rightarrow> string \<Rightarrow> string list \<Rightarrow> string list \<Rightarrow> string list \<Rightarrow> nat" where
  "rank_spec P mime user doc dflt =
     (case firstMatch P user mime of
        Some i \<Rightarrow> i
      | None \<Rightarrow>
          (case firstMatch P doc mime of
             Some i \<Rightarrow> length user + i
           | None \<Rightarrow>
               (case firstMatch P dflt mime of
                  Some i \<Rightarrow> length user + length doc + i
                | None \<Rightarrow> length user + length doc + length dflt)))"

subsection \<open>Candidates and calls of one mime type\<close>

text \<open>
  What one round of the \<open>forEach\<close> adds for a mime type, given the renderers found for
  it: \<open>renderThrows\<close> is the exception of the one \<open>render\<close> call of the round, if it
  throws; \<open>candidatesOf\<close> the candidates pushed when it does not; \<open>callsOf\<close> the
  log entry of the call.
\<close>

definition noRendererCandidate :: "string \<Rightarrow> IOrderedMimeType" where
  "noRendererCandidate mime =
     \<lparr>mimeType = mime, isResolved = False, rendererId = None, output' = None\<rparr>"

definition coreCandidate :: "string \<Rightarrow> IOrderedMimeType" where
  "coreCandidate mime =
     \<lparr>mimeType = mime, isResolved = False, rendererId = Some (- 1), output' = None\<rparr>"

definition resolvedCandidate :: "string \<Rightarrow> int \<Rightarrow> string \<Rightarrow> IOrderedMimeType" where
  "resolvedCandidate mime h html =
     \<lparr>mimeType = mime, isResolved = True, rendererId = Some h, output' = Some html\<rparr>"

definition alternativeCandidate :: "string \<Rightarrow> int \<Rightarrow> IOrderedMimeType" where
  "alternativeCandidate mime h =
     \<lparr>mimeType = mime, isResolved = False, rendererId = Some h, output' = None\<rparr>"

definition renderThrows ::
  "(string \<Rightarrow> ('d, 'v, 'e) ExtHostNotebookOutputRenderer list) \<Rightarrow> 'd \<Rightarrow> 'v CellDisplayOutput \<Rightarrow>
   string \<Rightarrow> 'e error option" where
  "renderThrows findRenderer document out mime =
     (case findRenderer mime of
        [] \<Rightarrow> None
      | handler0 # handlers \<Rightarrow>
          (case render handler0 document out mime of Inl e \<Rightarrow> Some e | Inr html \<Rightarrow> None))"

definition candidatesOf ::
  "(string \<Rightarrow> ('d, 'v, 'e) ExtHostNotebookOutputRenderer list) \<Rightarrow> 'd \<Rightarrow> 'v CellDisplayOutput \<Rightarrow>
   string \<Rightarrow> IOrderedMimeType list" where
  "candidatesOf findRenderer document out mime =
     (case findRenderer mime of
        [] \<Rightarrow> [noRendererCandidate mime]
      | handler0 # handlers \<Rightarrow>
          (case render handler0 document out mime of
             Inl e \<Rightarrow> []
           | Inr html \<Rightarrow>
               resolvedCandidate mime (handle handler0) html #
               map (\<lambda>h. alternativeCandidate mime (handle h)) handlers @
               (if mimeTypeSupportedByCore mime then [coreCandidate mime] else [])))"

definition callsOf ::
  "(string \<Rightarrow> ('d, 'v, 'e) ExtHostNotebookOutputRenderer list) \<Rightarrow> string \<Rightarrow> renderCall list" where
  "callsOf findRenderer mime =
     (case findRenderer mime of [] \<Rightarrow> [] | handler0 # handlers \<Rightarrow> [(handle handler0, mime)])"

text \<open>
  How an output sent to the main thread relates to the output it was made from: a rich
  output has become the result of the transform, anything else is the same object.
\<close>

definition sentFor ::
  "('v CellDisplayOutput \<Rightarrow> ('e error + 'v ITransformedDisplayOutputDto) \<times> renderCall list) \<Rightarrow>
   'v CellOutput \<Rightarrow> 'v IOutput \<Rightarrow> bool" where
  "sentFor transform out sent =
     (case out of
        DisplayOutput d \<Rightarrow>
          (if outputKind d = Rich
           then (case sent of
                   TransformedDisplayOutput ret \<Rightarrow> fst (transform d) = Inr ret
                 | ForwardedOutput x \<Rightarrow> False)
           else sent = ForwardedOutput out)
      | StreamOutput t \<Rightarrow> sent = ForwardedOutput out
      | ErrorOutput n v tb \<Rightarrow> sent = ForwardedOutput out)"

text \<open>
  The two transforms have the same last step: run the \<open>forEach\<close> from the empty array
  and wrap what it leaves.
\<close>

definition transformWith ::
  "(string \<Rightarrow> ('d, 'v, 'e) ExtHostNotebookOutputRenderer list) \<Rightarrow> 'd \<Rightarrow> string list \<Rightarrow>
   'v CellDisplayOutput \<Rightarrow> ('e error + 'v ITransformedDisplayOutputDto) \<times> renderCall list" where
  "transformWith findRenderer document sortedMimes out =
     (case orderMimeTypes_forEach findRenderer document out sortedMimes [] [] of
        (Inl e, calls) \<Rightarrow> (Inl e, calls)
      | (Inr orderMimeTypes, calls) \<Rightarrow>
          (Inr \<lparr>outputKind = outputKind out, data = data out,
                orderedMimeTypes = orderMimeTypes, pickedMimeTypeIndex = 0\<rparr>, calls))"

text \<open>
  A rich output makes it through the callback of \<open>outputs.map\<close> when its transform
  returns and the picked index is inside the list of candidates.
\<close>

definition passes ::
  "('v CellDisplayOutput \<Rightarrow> ('e error + 'v ITransformedDisplayOutputDto) \<times> renderCall list) \<Rightarrow>
   'v CellOutput \<Rightarrow> bool" where
  "passes transform out =
     (case out of
        DisplayOutput d \<Rightarrow>
          (if outputKind d = Rich
           then (case fst (transform d) of
                   Inl e \<Rightarrow> False
                 | Inr ret \<Rightarrow> pickedMimeTypeIndex ret < length (orderedMimeTypes ret))
           else True)
      | StreamOutput t \<Rightarrow> True
      | ErrorOutput n v tb \<Rightarrow> True)"

section \<open>Concrete inputs\<close>

text \<open>
  Two membership predicates for \<open>diff\<close> on numbers: nothing was there before, and
  everything was.
\<close>

definition containsNone :: "nat \<Rightarrow> bool" where
  "containsNone x = False"

definition containsAll :: "nat \<Rightarrow> bool" where
  "containsAll x = True"


text \<open>
  A platform for patterns without wildcards, on which matching a glob is equality; not
  Windows, so that nothing is rewritten before matching.
\<close>

definition literalGlob :: "string \<Rightarrow> string \<Rightarrow> bool" where
  "literalGlob pattern path = (pattern = path)"

definition literalPlatform :: platform where
  "literalPlatform = \<lparr>isWindows = False, glob_match = literalGlob\<rparr>"

text \<open>
  A controller with three registered renderers: two for \<open>text/html\<close>, of which the
  second one would throw if it were called, and one for \<open>image/png\<close> that throws.
  Its provider opens a notebook of one cell whose only output is a rich output without
  data. The document is one of this controller.
\<close>

definition renderHtml :: "unit \<Rightarrow> string CellDisplayOutput \<Rightarrow> string \<Rightarrow> string error + string" where
  "renderHtml document out mime = Inr ''<b>rendered</b>''"

definition renderFails :: "unit \<Rightarrow> string CellDisplayOutput \<Rightarrow> string \<Rightarrow> string error + string" where
  "renderFails document out mime = Inl (Thrown ''render failed'')"

definition htmlRenderer0 :: "(unit, string, string) ExtHostNotebookOutputRenderer" where
  "htmlRenderer0 = \<lparr>handle = 0, filter_subTypes = Some [''text/html''], renderer_render = renderHtml\<rparr>"

definition htmlRenderer1 :: "(unit, string, string) ExtHostNotebookOutputRenderer" where
  "htmlRenderer1 = \<lparr>handle = 1, filter_subTypes = Some [''text/html''], renderer_render = renderFails\<rparr>"

definition pngRenderer :: "(unit, string, string) ExtHostNotebookOutputRenderer" where
  "pngRenderer = \<lparr>handle = 2, filter_subTypes = Some [''image/png''], renderer_render = renderFails\<rparr>"

definition exampleRenderers :: "(unit, string, string) ExtHostNotebookOutputRenderer list" where
  "exampleRenderers = [htmlRenderer0, htmlRenderer1, pngRenderer]"

definition emptyOutput :: "string CellDisplayOutput" where
  "emptyOutput = \<lparr>outputKind = Rich, data = []\<rparr>"

definition plainOutput :: "string CellDisplayOutput" where
  "plainOutput = \<lparr>outputKind = Rich, data = [(''text/plain'', ''hi'')]\<rparr>"

definition htmlOutput :: "string CellDisplayOutput" where
  "htmlOutput =
     \<lparr>outputKind = Rich,
      data = [(''text/plain'', ''hi''), (''text/html'', ''<i>hi</i>''), (''application/x-custom'', ''?'')]\<rparr>"

definition pngOutput :: "string CellDisplayOutput" where
  "pngOutput =
     \<lparr>outputKind = Rich,
      data = [(''text/plain'', ''hi''), (''image/png'', ''iVBOR''), (''text/html'', ''<i>hi</i>'')]\<rparr>"

definition exampleCellData :: "(string CellOutput, string, unit) NotebookCellData" where
  "exampleCellData =
     \<lparr>language = ''python'', cellKind = Code, metadata = (), source = ''1 + 1'',
      outputs = [DisplayOutput emptyOutput]\<rparr>"

definition exampleNotebook :: "(string CellOutput, string, unit) NotebookCellData NotebookData" where
  "exampleNotebook =
     \<lparr>cells = [exampleCellData], languages = [''python''],
      notebook_metadata = notebookDocumentMetadataDefaults\<rparr>"

definition exampleOpenNotebook ::
  "string \<Rightarrow> string error + (string CellOutput, string, unit) NotebookCellData NotebookData" where
  "exampleOpenNotebook resource = Inr exampleNotebook"

definition exampleProvider :: "(string, string, unit, string) NotebookContentProvider" where
  "exampleProvider = \<lparr>openNotebook = exampleOpenNotebook\<rparr>"

definition exampleController :: "(unit, string, string, unit, string) ExtHostNotebookController" where
  "exampleController =
     \<lparr>notebookContentProviders = [''example'' \<mapsto> exampleProvider],
      documents = [''file:///nb'' \<mapsto> ()],
      notebookOutputRenderers = exampleRenderers,
      controller_outputDisplayOrder =
        Some \<lparr>defaultOrder = NOTEBOOK_DISPLAY_ORDER, userOrder = None\<rparr>\<rparr>"

definition exampleDocument :: "(unit, string, string) ExtHostNotebookDocument" where
  "exampleDocument =
     \<lparr>docRef = (), viewType = ''example'', uri = ''file:///nb'', doc_displayOrder = [],
      renderingHandler =
        \<lparr>outputDisplayOrder = controller_outputDisplayOrder exampleController,
         findBestMatchedRenderer = controller_findBestMatchedRenderer exampleController\<rparr>\<rparr>"

definition exampleCell :: ExtHostCell where
  "exampleCell = \<lparr>cell_handle = 7\<rparr>"

text \<open>
  What the transform returns for \<open>htmlOutput\<close> and for \<open>plainOutput\<close> with this
  controller.
\<close>

definition htmlTransformed :: "string ITransformedDisplayOutputDto" where
  "htmlTransformed =
     \<lparr>outputKind = Rich,
      data = [(''text/plain'', ''hi''), (''text/html'', ''<i>hi</i>''), (''application/x-custom'', ''?'')],
      orderedMimeTypes =
        [\<lparr>mimeType = ''text/html'', isResolved = True, rendererId = Some 0,
          output' = Some ''<b>rendered</b>''\<rparr>,
         \<lparr>mimeType = ''text/html'', isResolved = False, rendererId = Some 1, output' = None\<rparr>,
         \<lparr>mimeType = ''text/html'', isResolved = False, rendererId = Some (- 1), output' = None\<rparr>,
         \<lparr>mimeType = ''text/plain'', isResolved = False, rendererId = None, output' = None\<rparr>,
         \<lparr>mimeType = ''application/x-custom'', isResolved = False, rendererId = None,
          output' = None\<rparr>],
      pickedMimeTypeIndex = 0\<rparr>"

definition plainTransformed :: "string ITransformedDisplayOutputDto" where
  "plainTransformed =
     \<lparr>outputKind = Rich, data = [(''text/plain'', ''hi'')],
      orderedMimeTypes =
        [\<lparr>mimeType = ''text/plain'', isResolved = False, rendererId = None, output' = None\<rparr>],
      pickedMimeTypeIndex = 0\<rparr>"


text \<open>
  Two splices of outputs for \<open>eventuallyUpdateCellOutputs\<close>, the first inserting a
  stream output and \<open>htmlOutput\<close>, the second an error output; one splice that inserts
  the rich output without data; and the arguments of the remote call that the first two
  lead to.
\<close>

definition exampleDiffs :: "string CellOutput ISplice list" where
  "exampleDiffs =
     [\<lparr>start = 2, deleteCount = 1, toInsert = [StreamOutput ''4'', DisplayOutput htmlOutput]\<rparr>,
      \<lparr>start = 5, deleteCount = 0,
       toInsert = [ErrorOutput (Some ''NameError'') (Some ''x'') None]\<rparr>]"

definition emptyDiffs :: "string CellOutput ISplice list" where
  "emptyDiffs = [\<lparr>start = 0, deleteCount = 0, toInsert = [DisplayOutput emptyOutput]\<rparr>]"

definition exampleArgs :: "string spliceNotebookCellOutputs_args" where
  "exampleArgs =
     \<lparr>arg_viewType = ''example'', arg_resource = ''file:///nb'', arg_cellHandle = 7,
      arg_splices =
        [(2, 1, [ForwardedOutput (StreamOutput ''4''), TransformedDisplayOutput htmlTransformed]),
         (5, 0, [ForwardedOutput (ErrorOutput (Some ''NameError'') (Some ''x'') None)])],
      arg_renderers = [Some 0]\<rparr>"

section \<open>The differ returns, and its splices rebuild \<open>after\<close>\<close>

lemma separated_snoc:
  "separated (res @ [s]) = (separated res \<and> \<not> isNoop s \<and> (res = [] \<or> sEnd (last res) < start s))"
  by (induction res rule: separated.induct) auto

lemma applySplices_Nil: "applySplices [] xs = xs"
  by (simp add: applySplices_def)

lemma applySplices_snoc:
  "applySplices (res @ [s]) xs = applySplices res (array_splice xs (start s) (deleteCount s) (toInsert s))"
  by (simp add: applySplices_def)

lemma applySplices_prefix:
  "separated res \<Longrightarrow> endsBy res n \<Longrightarrow> n \<le> length xs \<Longrightarrow>
     applySplices res xs = applySplices res (take n xs) @ drop n xs"
proof (induction res arbitrary: n xs rule: rev_induct)
  case Nil
  then show ?case by (simp add: applySplices_Nil)
next
  case (snoc s res)
  let ?st = "start s" and ?dc = "deleteCount s" and ?ins = "toInsert s"
  from snoc.prems have sep: "separated res" and eb: "endsBy res ?st"
    by (auto simp: separated_snoc endsBy_def)
  from snoc.prems have le: "?st + ?dc \<le> n" by (simp add: endsBy_def sEnd_def)
  have st_le: "?st \<le> length xs" using le snoc.prems(3) by simp
  have a: "applySplices res (take ?st xs @ ys) = applySplices res (take ?st xs) @ ys" for ys
    using snoc.IH[OF sep eb, of "take ?st xs @ ys"] st_le by simp
  have d: "drop (?st + ?dc) (take n xs) @ drop n xs = drop (?st + ?dc) xs"
  proof -
    have "drop (?st + ?dc) xs = drop (?st + ?dc) (take n xs @ drop n xs)" by simp
    also have "\<dots> = drop (?st + ?dc) (take n xs) @ drop n xs"
      using le snoc.prems(3) by (simp del: append_take_drop_id)
    finally show ?thesis by simp
  qed
  have t: "take ?st (take n xs) = take ?st xs" using le by (simp add: min_def)
  have "applySplices (res @ [s]) xs = applySplices res (take ?st xs @ (?ins @ drop (?st + ?dc) xs))"
    by (simp add: applySplices_snoc array_splice_def)
  also have "\<dots> = applySplices res (take ?st xs) @ (?ins @ drop (?st + ?dc) xs)"
    by (rule a)
  finally have lhs: "applySplices (res @ [s]) xs = applySplices res (take ?st xs) @ ?ins @ drop (?st + ?dc) xs" .
  have "applySplices (res @ [s]) (take n xs) =
          applySplices res (take ?st xs @ (?ins @ drop (?st + ?dc) (take n xs)))"
    by (simp only: applySplices_snoc array_splice_def t)
  also have "\<dots> = applySplices res (take ?st xs) @ (?ins @ drop (?st + ?dc) (take n xs))"
    by (rule a)
  finally have "applySplices (res @ [s]) (take n xs) @ drop n xs =
      applySplices res (take ?st xs) @ ?ins @ (drop (?st + ?dc) (take n xs) @ drop n xs)"
    by simp
  with lhs d show ?case by simp
qed


lemma endsBy_mono: "endsBy res n \<Longrightarrow> n \<le> m \<Longrightarrow> endsBy res m"
  by (auto simp: endsBy_def)

lemma pushSplice_cases:
  obtains (noop) "dc = 0" "ins = []" "pushSplice res i dc ins = res"
  | (merge) r l where "\<not> (dc = 0 \<and> ins = [])" "res = r @ [l]" "sEnd l = i"
      "pushSplice res i dc ins =
         r @ [l\<lparr>deleteCount := deleteCount l + dc, toInsert := toInsert l @ ins\<rparr>]"
  | (fresh) "\<not> (dc = 0 \<and> ins = [])" "res = [] \<or> sEnd (last res) \<noteq> i"
      "pushSplice res i dc ins = res @ [\<lparr>start = i, deleteCount = dc, toInsert = ins\<rparr>]"
proof (cases "dc = 0 \<and> ins = []")
  case True
  then show ?thesis using noop by (simp add: pushSplice_def)
next
  case nn: False
  show ?thesis
  proof (cases "res \<noteq> [] \<and> sEnd (last res) = i")
    case True
    then have "res = butlast res @ [last res]" by simp
    with True nn show ?thesis
      using merge[of "butlast res" "last res"] by (simp add: pushSplice_def sEnd_def)
  next
    case False
    with nn show ?thesis using fresh by (auto simp: pushSplice_def sEnd_def)
  qed
qed

lemma pushSplice_separated:
  assumes "separated res" "endsBy res i"
  shows "separated (pushSplice res i dc ins) \<and> endsBy (pushSplice res i dc ins) (i + dc)"
proof (cases rule: pushSplice_cases[where res=res and i=i and dc=dc and ins=ins])
  case noop
  with assms show ?thesis by (simp add: endsBy_def)
next
  case (merge r l)
  with assms show ?thesis
    by (auto simp: separated_snoc endsBy_def sEnd_def isNoop_def)
next
  case fresh
  with assms show ?thesis
    by (auto simp: separated_snoc endsBy_def sEnd_def isNoop_def)
qed

lemma pushSplice_apply:
  assumes "separated res" "endsBy res i" "i + dc \<le> length xs"
  shows "applySplices (pushSplice res i dc ins) (take (i + dc) xs) = applySplices res (take i xs) @ ins"
proof (cases rule: pushSplice_cases[where res=res and i=i and dc=dc and ins=ins])
  case noop
  then show ?thesis by simp
next
  case (merge r l)
  from assms merge have sep: "separated r" and eb: "endsBy r (start l)"
    by (auto simp: separated_snoc endsBy_def)
  from merge have e: "start l + deleteCount l = i" by (simp add: sEnd_def)
  have sl: "start l \<le> length xs" using e assms(3) by simp
  have a: "applySplices r (take (start l) xs @ ys) = applySplices r (take (start l) xs) @ ys" for ys
    using applySplices_prefix[OF sep eb, of "take (start l) xs @ ys"] sl by simp
  have t: "take (start l) (take n xs) = take (start l) xs" if "start l \<le> n" for n
    using that by (simp add: min_def)
  have "applySplices (pushSplice res i dc ins) (take (i + dc) xs)
          = applySplices r (take (start l) xs @ (toInsert l @ ins))"
    unfolding merge(4) using e assms(3)
    by (simp add: applySplices_snoc array_splice_def t add.assoc)
  also have "\<dots> = applySplices r (take (start l) xs) @ (toInsert l @ ins)" by (rule a)
  finally have lhs: "applySplices (pushSplice res i dc ins) (take (i + dc) xs)
          = applySplices r (take (start l) xs) @ toInsert l @ ins" by simp
  have "applySplices res (take i xs) = applySplices r (take (start l) xs @ toInsert l)"
    unfolding merge(2) using e assms(3)
    by (simp add: applySplices_snoc array_splice_def t)
  also have "\<dots> = applySplices r (take (start l) xs) @ toInsert l" by (rule a)
  finally show ?thesis using lhs by simp
next
  case fresh
  have i: "i \<le> length xs" using assms(3) by simp
  have "applySplices (pushSplice res i dc ins) (take (i + dc) xs)
          = applySplices res (take i xs @ ins)"
    unfolding fresh(3) using assms(3)
    by (simp add: applySplices_snoc array_splice_def min_def)
  also have "\<dots> = applySplices res (take i xs) @ ins"
    using applySplices_prefix[OF assms(1,2), of "take i xs @ ins"] i by simp
  finally show ?thesis .
qed

lemma diff_loop_returns:
  "diff_inv before after i j res \<Longrightarrow>
     \<exists>r. diff_loop before after contains i j res = Some r \<and> separated r \<and>
         applySplices r before = after"
proof (induction "(length before - i) + (length after - j)" arbitrary: i j res rule: less_induct)
  case less
  from less.prems have il: "i \<le> length before" and jl: "j \<le> length after"
    and sep: "separated res" and eb: "endsBy res i"
    and ap: "applySplices res (take i before) = take j after"
    by (simp_all add: diff_inv_def)
  show ?case
  proof (cases "i = length before")
    case True
    have "applySplices (pushSplice res i 0 (drop j after)) (take (i + 0) before)
            = applySplices res (take i before) @ drop j after"
      using True by (intro pushSplice_apply[OF sep eb]) simp
    then have "applySplices (pushSplice res i 0 (drop j after)) before = after"
      using True ap by simp
    moreover have "separated (pushSplice res i 0 (drop j after))"
      using pushSplice_separated[OF sep eb] by blast
    ultimately show ?thesis using True by (subst diff_loop.simps) simp
  next
    case inb: False
    with il have ib: "i < length before" by simp
    show ?thesis
    proof (cases "j = length after")
      case True
      have "applySplices (pushSplice res i (length before - i) []) (take (i + (length before - i)) before)
              = applySplices res (take i before) @ []"
        using ib by (intro pushSplice_apply[OF sep eb]) simp
      then have "applySplices (pushSplice res i (length before - i) []) before = after"
        using True ap ib by simp
      moreover have "separated (pushSplice res i (length before - i) [])"
        using pushSplice_separated[OF sep eb] by blast
      ultimately show ?thesis using True inb by (subst diff_loop.simps) simp
    next
      case jnb: False
      with jl have jb: "j < length after" by simp
      show ?thesis
      proof (cases "before ! i = after ! j")
        case True
        have "applySplices res (take (Suc i) before)
                = applySplices res (take i (take (Suc i) before)) @ drop i (take (Suc i) before)"
          using ib by (intro applySplices_prefix[OF sep eb]) simp
        also have "\<dots> = take j after @ [before ! i]"
          using ib ap by (simp add: min_def take_Suc_conv_app_nth)
        also have "\<dots> = take (Suc j) after"
          using jb True by (simp add: take_Suc_conv_app_nth)
        finally have "diff_inv before after (Suc i) (Suc j) res"
          using ib jb sep endsBy_mono[OF eb, of "Suc i"] by (simp add: diff_inv_def)
        moreover have "(length before - Suc i) + (length after - Suc j) < (length before - i) + (length after - j)"
          using ib jb by simp
        ultimately obtain r where "diff_loop before after contains (Suc i) (Suc j) res = Some r"
            "separated r" "applySplices r before = after"
          using less.hyps by blast
        then show ?thesis using True inb jnb by (subst diff_loop.simps) simp
      next
        case ne: False
        show ?thesis
        proof (cases "contains (after ! j)")
          case True
          let ?res = "pushSplice res i 1 []"
          have "applySplices ?res (take (i + 1) before) = applySplices res (take i before) @ []"
            using ib by (intro pushSplice_apply[OF sep eb]) simp
          then have "diff_inv before after (Suc i) j ?res"
            using ib jl ap pushSplice_separated[OF sep eb, of 1 "[]"] by (simp add: diff_inv_def)
          moreover have "(length before - Suc i) + (length after - j) < (length before - i) + (length after - j)"
            using ib by simp
          ultimately obtain r where "diff_loop before after contains (Suc i) j ?res = Some r"
            "separated r" "applySplices r before = after"
            using less.hyps by blast
          then show ?thesis using True ne inb jnb by (subst diff_loop.simps) simp
        next
          case False
          let ?res = "pushSplice res i 0 [after ! j]"
          have "applySplices ?res (take (i + 0) before) = applySplices res (take i before) @ [after ! j]"
            using il by (intro pushSplice_apply[OF sep eb]) simp
          then have "diff_inv before after i (Suc j) ?res"
            using il jb ap pushSplice_separated[OF sep eb, of 0 "[after ! j]"]
            by (simp add: diff_inv_def take_Suc_conv_app_nth)
          moreover have "(length before - i) + (length after - Suc j) < (length before - i) + (length after - j)"
            using jb by simp
          ultimately obtain r where "diff_loop before after contains i (Suc j) ?res = Some r"
            "separated r" "applySplices r before = after"
            using less.hyps by blast
          then show ?thesis using False ne inb jnb by (subst diff_loop.simps) simp
        qed
      qed
    qed
  qed
qed


lemma separated_Cons_later:
  "separated (s # ss) \<Longrightarrow> t \<in> set ss \<Longrightarrow> sEnd s < start t"
proof (induction ss arbitrary: s)
  case Nil
  then show ?case by simp
next
  case (Cons u us)
  from Cons.prems(1) have su: "sEnd s < start u" and sep: "separated (u # us)" by simp_all
  show ?case
  proof (cases "t = u")
    case True
    with su show ?thesis by simp
  next
    case False
    with Cons.prems(2) have "t \<in> set us" by simp
    from Cons.IH[OF sep this] have "sEnd u < start t" .
    moreover have "start u \<le> sEnd u" by (simp add: sEnd_def)
    ultimately show ?thesis using su by linarith
  qed
qed

lemma separated_tail: "separated (s # ss) \<Longrightarrow> separated ss"
  by (cases ss) simp_all

lemma separated_sorted: "separated ss \<Longrightarrow> sorted (map start ss)"
proof (induction ss)
  case Nil
  then show ?case by simp
next
  case (Cons s ss)
  have "start s \<le> start t" if "t \<in> set ss" for t
    using separated_Cons_later[OF Cons.prems that] by (simp add: sEnd_def)
  with Cons.IH[OF separated_tail[OF Cons.prems]] show ?case by auto
qed

lemma separated_not_noop: "separated ss \<Longrightarrow> s \<in> set ss \<Longrightarrow> \<not> isNoop s"
  by (induction ss rule: separated.induct) auto

lemma separated_adjacent:
  "separated ss \<Longrightarrow> Suc k < length ss \<Longrightarrow> sEnd (ss ! k) < start (ss ! Suc k)"
proof (induction ss arbitrary: k rule: separated.induct)
  case (3 s t ss)
  then show ?case by (cases k) auto
qed simp_all

lemma diff_inv_init: "diff_inv before after 0 0 []"
  by (simp add: diff_inv_def endsBy_def applySplices_Nil)

lemma diff_returns:
  "\<exists>r. diff before after contains = Some r \<and> separated r \<and> applySplices r before = after"
  unfolding diff_def by (rule diff_loop_returns[OF diff_inv_init])

text \<open>
  C2. Applying the splices that \<open>diff\<close> returns to \<open>before\<close>, each one deleting
  \<open>deleteCount\<close> items at \<open>start\<close> and inserting \<open>toInsert\<close> there, gives \<open>after\<close>,
  whatever the two sequences and the predicate \<open>contains\<close> are. The function returns for
  every input, and every \<open>start\<close> it returns is a position of \<open>before\<close>: the splices are
  applied as the extension host applies splice lists, from the last to the first.
\<close>

theorem diff_applySplices_roundtrip:
  "\<exists>splices. diff before after contains = Some splices \<and> applySplices splices before = after"
  using diff_returns[of before after contains] by blast

text \<open>
  C3. The splices that \<open>diff\<close> returns come in non-decreasing order of \<open>start\<close>; none
  of them has \<open>deleteCount\<close> 0 and nothing to insert; no splice starts where the one
  before it ends, start plus \<open>deleteCount\<close> (such a pair is merged); and two empty
  inputs give the empty list.
\<close>

theorem diff_splices_shape:
  "\<exists>splices. diff before after contains = Some splices \<and>
     sorted (map start splices) \<and>
     (\<forall>s \<in> set splices. \<not> (deleteCount s = 0 \<and> toInsert s = [])) \<and>
     (\<forall>k. Suc k < length splices \<longrightarrow>
          start (splices ! Suc k) \<noteq> start (splices ! k) + deleteCount (splices ! k)) \<and>
     diff [] [] contains = Some []"
proof -
  obtain r where r: "diff before after contains = Some r" and sep: "separated r"
    using diff_returns[of before after contains] by blast
  have s: "sorted (map start r)" by (rule separated_sorted[OF sep])
  have n: "\<forall>s \<in> set r. \<not> (deleteCount s = 0 \<and> toInsert s = [])"
    using separated_not_noop[OF sep] by (auto simp: isNoop_def)
  have a: "\<forall>k. Suc k < length r \<longrightarrow> start (r ! Suc k) \<noteq> start (r ! k) + deleteCount (r ! k)"
    using separated_adjacent[OF sep] by (fastforce simp: sEnd_def)
  have e: "diff [] [] contains = Some []"
    by (simp add: diff_def diff_loop.simps pushSplice_def)
  from r s n a e show ?thesis by blast
qed

lemma diff_insert_two:
  "diff [10, 20] [5, 10, 6, 20] containsNone =
     Some [\<lparr>start = 0, deleteCount = 0, toInsert = [5]\<rparr>,
           \<lparr>start = 1, deleteCount = 0, toInsert = [6]\<rparr>]"
  by (simp add: diff_def diff_loop.simps pushSplice_def containsNone_def)

theorem diff_splices_shape_witness:
  "diff [10, 20] [5, 10, 6, 20] containsNone =
     Some [\<lparr>start = 0, deleteCount = 0, toInsert = [5]\<rparr>,
           \<lparr>start = 1, deleteCount = 0, toInsert = [6]\<rparr>] \<and>
   sorted (map start [\<lparr>start = 0, deleteCount = 0, toInsert = [5::nat]\<rparr>,
           \<lparr>start = 1, deleteCount = 0, toInsert = [6]\<rparr>]) \<and>
   Suc 0 < length [\<lparr>start = 0, deleteCount = 0, toInsert = [5::nat]\<rparr>,
           \<lparr>start = 1, deleteCount = 0, toInsert = [6]\<rparr>] \<and>
   diff [] [] containsNone = Some []"
  using diff_splices_shape[of "[10, 20]" "[5, 10, 6, 20]" containsNone]
  by (simp add: diff_insert_two)

lemma diff_examples:
  "diff [] [] containsNone = Some []"
  "diff [1, 2, 3] [1, 2, 3] containsNone = Some []"
  "diff [1, 2, 3] [1, 3] containsAll = Some [\<lparr>start = 1, deleteCount = 1, toInsert = []\<rparr>]"
  "diff [1, 2] [1, 7, 2] containsNone = Some [\<lparr>start = 1, deleteCount = 0, toInsert = [7]\<rparr>]"
  by (simp_all add: diff_def diff_loop.simps pushSplice_def containsNone_def containsAll_def)

lemma applySplices_forward_differs:
  "applySplices [\<lparr>start = 0, deleteCount = 0, toInsert = [5]\<rparr>,
                 \<lparr>start = 1, deleteCount = 0, toInsert = [6]\<rparr>] [10, 20] = [5, 10, 6, 20::nat]"
  "applySplices_forward [\<lparr>start = 0, deleteCount = 0, toInsert = [5]\<rparr>,
                 \<lparr>start = 1, deleteCount = 0, toInsert = [6]\<rparr>] [10, 20] = [5, 6, 10, 20::nat]"
  by (simp_all add: applySplices_def applySplices_forward_def array_splice_def)

theorem diff_applySplices_roundtrip_witness:
  "diff [10, 20] [5, 10, 6, 20] containsNone =
     Some [\<lparr>start = 0, deleteCount = 0, toInsert = [5]\<rparr>,
           \<lparr>start = 1, deleteCount = 0, toInsert = [6]\<rparr>] \<and>
   applySplices [\<lparr>start = 0, deleteCount = 0, toInsert = [5]\<rparr>,
           \<lparr>start = 1, deleteCount = 0, toInsert = [6]\<rparr>] [10, 20] = [5, 10, 6, 20::nat]"
  using diff_applySplices_roundtrip[of "[10, 20]" "[5, 10, 6, 20]" containsNone]
  by (simp add: diff_insert_two)

section \<open>Ranks and the order of the sorted mime types\<close>

lemma scanDisplayOrder_firstMatch:
  "scanDisplayOrder P ps mime n =
     (case firstMatch P ps mime of Some i \<Rightarrow> Inl (n + i) | None \<Rightarrow> Inr (n + length ps))"
  by (induction ps arbitrary: n) (auto split: option.splits)

lemma getMimeTypeOrder_rank_spec:
  "getMimeTypeOrder P mime user doc dflt = rank_spec P mime user doc dflt"
  by (simp add: getMimeTypeOrder_def rank_spec_def scanDisplayOrder_firstMatch
           split: option.splits)

lemma firstMatch_Some_iff:
  "firstMatch P ps mime = Some i \<longleftrightarrow>
     i < length ps \<and> matchGlobUniversal P (ps ! i) mime \<and>
     (\<forall>j < i. \<not> matchGlobUniversal P (ps ! j) mime)"
proof (induction ps arbitrary: i)
  case Nil
  then show ?case by simp
next
  case (Cons p ps)
  show ?case
  proof (cases "matchGlobUniversal P p mime")
    case True
    then show ?thesis by (cases i) auto
  next
    case False
    show ?thesis
    proof (cases i)
      case 0
      with False show ?thesis by simp
    next
      case (Suc k)
      have "(\<forall>j < Suc k. \<not> matchGlobUniversal P ((p # ps) ! j) mime) \<longleftrightarrow>
            (\<forall>j < k. \<not> matchGlobUniversal P (ps ! j) mime)"
        using False by (auto simp: less_Suc_eq_0_disj)
      with False Suc Cons.IH[of k] show ?thesis by auto
    qed
  qed
qed

lemma firstMatch_None_iff:
  "firstMatch P ps mime = None \<longleftrightarrow> (\<forall>p \<in> set ps. \<not> matchGlobUniversal P p mime)"
  by (induction ps) auto

lemma firstMatch_less: "firstMatch P ps mime = Some i \<Longrightarrow> i < length ps"
  by (simp add: firstMatch_Some_iff)

lemma sortMimeTypes_rank_spec:
  "sortMimeTypes P ms user doc dflt = sort_key (\<lambda>x. rank_spec P x user doc dflt) ms"
  by (simp add: sortMimeTypes_def getMimeTypeOrder_rank_spec)

lemma sorted_positions:
  assumes "sorted (map f xs)" "i < length xs" "j < length xs" "f (xs ! i) < f (xs ! j)"
  shows "i < j"
proof (rule ccontr)
  assume "\<not> i < j"
  then have "j \<le> i" by simp
  with assms(1,2) have "map f xs ! j \<le> map f xs ! i"
    by (intro sorted_nth_mono) simp_all
  with assms(2,3,4) show False by simp
qed

text \<open>
  C4. \<open>sortMimeTypes\<close> orders the mime types by rank, and the rank that
  \<open>getMimeTypeOrder\<close> computes is the one of the specification: the index of the first
  matching pattern of the user order, else of the document order counted on from the
  length of the user order, else of the default order counted on further, else the
  combined length of the three lists. The result is the input rearranged, ascending in
  rank, and mime types of equal rank (those that nothing matches among them) keep the order
  they came in. So a mime type that the user order matches comes before any that only the
  default order matches, and with empty user and document orders the result is the input
  sorted by position of the first match in the default order.
\<close>

theorem sortMimeTypes_by_rank:
  "getMimeTypeOrder P m user doc dflt = rank_spec P m user doc dflt \<and>
   sorted (map (\<lambda>x. rank_spec P x user doc dflt) (sortMimeTypes P ms user doc dflt)) \<and>
   mset (sortMimeTypes P ms user doc dflt) = mset ms \<and>
   filter (\<lambda>x. rank_spec P x user doc dflt = k) (sortMimeTypes P ms user doc dflt) =
     filter (\<lambda>x. rank_spec P x user doc dflt = k) ms \<and>
   (firstMatch P user a \<noteq> None \<and> firstMatch P user b = None \<and> firstMatch P doc b = None \<and>
    firstMatch P dflt b \<noteq> None \<and>
    i < length ms \<and> j < length ms \<and>
    sortMimeTypes P ms user doc dflt ! i = a \<and> sortMimeTypes P ms user doc dflt ! j = b
      \<longrightarrow> i < j) \<and>
   sortMimeTypes P ms [] [] dflt =
     sort_key (\<lambda>x. case firstMatch P dflt x of Some n \<Rightarrow> n | None \<Rightarrow> length dflt) ms"
proof -
  let ?rank = "\<lambda>x. rank_spec P x user doc dflt"
  let ?res = "sortMimeTypes P ms user doc dflt"
  have res: "?res = sort_key ?rank ms" by (rule sortMimeTypes_rank_spec)
  have s: "sorted (map ?rank ?res)" unfolding res by (rule sorted_sort_key)
  have m: "mset ?res = mset ms" unfolding res by simp
  have st: "filter (\<lambda>x. ?rank x = k) ?res = filter (\<lambda>x. ?rank x = k) ms"
    unfolding res by (rule sort_key_stable)
  have ub: "i < j"
    if h: "firstMatch P user a \<noteq> None" "firstMatch P user b = None" "firstMatch P doc b = None"
      "firstMatch P dflt b \<noteq> None" "i < length ms" "j < length ms" "?res ! i = a" "?res ! j = b"
  proof -
    from h(1) obtain n where n: "firstMatch P user a = Some n" by auto
    then have "?rank a < length user" by (simp add: rank_spec_def firstMatch_less)
    moreover have "length user \<le> ?rank b" using h(2,3) by (auto simp: rank_spec_def split: option.splits)
    ultimately have lt: "?rank (?res ! i) < ?rank (?res ! j)" using h(7,8) by simp
    have len: "length ?res = length ms" unfolding res by simp
    show ?thesis by (rule sorted_positions[OF s _ _ lt]) (simp_all add: len h(5,6))
  qed
  have e: "sortMimeTypes P ms [] [] dflt =
     sort_key (\<lambda>x. case firstMatch P dflt x of Some n \<Rightarrow> n | None \<Rightarrow> length dflt) ms"
  proof -
    have "(\<lambda>x. rank_spec P x [] [] dflt) =
          (\<lambda>x. case firstMatch P dflt x of Some n \<Rightarrow> n | None \<Rightarrow> length dflt)"
      by (rule ext) (simp add: rank_spec_def split: option.splits)
    then show ?thesis by (simp add: sortMimeTypes_rank_spec)
  qed
  have ub': "firstMatch P user a \<noteq> None \<and> firstMatch P user b = None \<and> firstMatch P doc b = None \<and>
    firstMatch P dflt b \<noteq> None \<and> i < length ms \<and> j < length ms \<and>
    ?res ! i = a \<and> ?res ! j = b \<longrightarrow> i < j"
    using ub by blast
  show ?thesis
    by (intro conjI) (fact getMimeTypeOrder_rank_spec s m st ub' e)+
qed

theorem sortMimeTypes_by_rank_witness:
  "firstMatch literalPlatform [''b''] ''b'' \<noteq> None \<and>
   firstMatch literalPlatform [''b''] ''a'' = None \<and>
   firstMatch literalPlatform [] ''a'' = None \<and>
   firstMatch literalPlatform [''a'', ''b''] ''a'' \<noteq> None \<and>
   sortMimeTypes literalPlatform [''a'', ''b''] [''b''] [] [''a'', ''b''] = [''b'', ''a''] \<and>
   sortMimeTypes literalPlatform [''text/plain'', ''text/html''] [] [] [''text/html'', ''text/plain'']
     = [''text/html'', ''text/plain''] \<and>
   (0::nat) < 1"
  using sortMimeTypes_by_rank[of literalPlatform "''a''" "[''b'']" "[]" "[''a'', ''b'']"
          "[''a'', ''b'']" 0 "''b''" "''a''" 0 1]
  by (simp add: sortMimeTypes_def getMimeTypeOrder_def matchGlobUniversal_def literalPlatform_def
        literalGlob_def)

section \<open>The \<open>forEach\<close> of the transform, round by round\<close>

lemma forEach_ok:
  "\<forall>m \<in> set ms. renderThrows f d out m = None \<Longrightarrow>
     orderMimeTypes_forEach f d out ms acc calls =
       (Inr (acc @ concat (map (candidatesOf f d out) ms)), calls @ concat (map (callsOf f) ms))"
proof (induction ms arbitrary: acc calls)
  case Nil
  then show ?case by simp
next
  case (Cons m ms)
  from Cons.prems have rest: "\<forall>x \<in> set ms. renderThrows f d out x = None"
    and m: "renderThrows f d out m = None" by simp_all
  show ?case
  proof (cases "f m")
    case Nil
    then show ?thesis
      by (simp add: Cons.IH[OF rest] candidatesOf_def callsOf_def noRendererCandidate_def)
  next
    case (Cons h hs)
    with m obtain html where html: "render h d out m = Inr html"
      by (auto simp: renderThrows_def split: sum.splits)
    with Cons show ?thesis
      by (simp add: Cons.IH[OF rest] candidatesOf_def callsOf_def resolvedCandidate_def
            alternativeCandidate_def coreCandidate_def)
  qed
qed

lemma forEach_throws_at_head:
  "renderThrows f d out m = Some e \<Longrightarrow>
     orderMimeTypes_forEach f d out (m # post) acc calls = (Inl e, calls @ callsOf f m)"
  by (auto simp: renderThrows_def callsOf_def split: list.splits sum.splits)

lemma forEach_append:
  "\<forall>m \<in> set pre. renderThrows f d out m = None \<Longrightarrow>
     orderMimeTypes_forEach f d out (pre @ ms) acc calls =
       orderMimeTypes_forEach f d out ms (acc @ concat (map (candidatesOf f d out) pre))
         (calls @ concat (map (callsOf f) pre))"
proof (induction pre arbitrary: acc calls)
  case Nil
  then show ?case by simp
next
  case (Cons m pre)
  from Cons.prems have rest: "\<forall>x \<in> set pre. renderThrows f d out x = None"
    and m: "renderThrows f d out m = None" by simp_all
  have one: "orderMimeTypes_forEach f d out (m # xs) acc calls =
      orderMimeTypes_forEach f d out xs (acc @ candidatesOf f d out m) (calls @ callsOf f m)" for xs
  proof (cases "f m")
    case Nil
    then show ?thesis by (simp add: candidatesOf_def callsOf_def noRendererCandidate_def)
  next
    case (Cons h hs)
    with m obtain html where "render h d out m = Inr html"
      by (auto simp: renderThrows_def split: sum.splits)
    with Cons show ?thesis
      by (simp add: candidatesOf_def callsOf_def resolvedCandidate_def
            alternativeCandidate_def coreCandidate_def)
  qed
  show ?case by (simp del: orderMimeTypes_forEach.simps add: one Cons.IH[OF rest])
qed

lemma forEach_throw:
  assumes "\<forall>m \<in> set pre. renderThrows f d out m = None" "renderThrows f d out m = Some e"
  shows "orderMimeTypes_forEach f d out (pre @ m # post) acc calls =
       (Inl e, calls @ concat (map (callsOf f) pre) @ callsOf f m)"
  unfolding forEach_append[OF assms(1)]
  by (simp only: forEach_throws_at_head[OF assms(2)] append_assoc)

lemma first_throw:
  "(\<forall>m \<in> set ms. renderThrows f d out m = None) \<or>
   (\<exists>pre m post e. ms = pre @ m # post \<and> (\<forall>x \<in> set pre. renderThrows f d out x = None) \<and>
        renderThrows f d out m = Some e)"
proof (cases "\<exists>m \<in> set ms. renderThrows f d out m \<noteq> None")
  case True
  then obtain pre m post where "ms = pre @ m # post" "renderThrows f d out m \<noteq> None"
      "\<forall>x \<in> set pre. \<not> renderThrows f d out x \<noteq> None"
    using split_list_first_prop[of ms "\<lambda>m. renderThrows f d out m \<noteq> None"] by blast
  then show ?thesis by auto
next
  case False
  then show ?thesis by simp
qed

lemma transformWith_ok:
  "\<forall>m \<in> set ms. renderThrows f d out m = None \<Longrightarrow>
     transformWith f d ms out =
       (Inr \<lparr>outputKind = outputKind out, data = data out,
             orderedMimeTypes = concat (map (candidatesOf f d out) ms), pickedMimeTypeIndex = 0\<rparr>,
        concat (map (callsOf f) ms))"
  by (simp add: transformWith_def forEach_ok)

lemma transformWith_throw:
  "\<forall>m \<in> set pre. renderThrows f d out m = None \<Longrightarrow> renderThrows f d out m = Some e \<Longrightarrow>
     transformWith f d (pre @ m # post) out = (Inl e, concat (map (callsOf f) pre) @ callsOf f m)"
  by (simp add: transformWith_def forEach_throw)

lemma transformWith_Inr:
  assumes "transformWith f d ms out = (Inr ret, calls)"
  shows "(\<forall>m \<in> set ms. renderThrows f d out m = None) \<and>
         ret = \<lparr>outputKind = outputKind out, data = data out,
             orderedMimeTypes = concat (map (candidatesOf f d out) ms), pickedMimeTypeIndex = 0\<rparr> \<and>
         calls = concat (map (callsOf f) ms)"
proof -
  from first_throw[of ms f d out] show ?thesis
  proof
    assume ok: "\<forall>m \<in> set ms. renderThrows f d out m = None"
    from transformWith_ok[OF ok] assms ok show ?thesis by simp
  next
    assume "\<exists>pre m post e. ms = pre @ m # post \<and> (\<forall>x \<in> set pre. renderThrows f d out x = None) \<and>
        renderThrows f d out m = Some e"
    then obtain pre m post e where "ms = pre @ m # post"
      "\<forall>x \<in> set pre. renderThrows f d out x = None" "renderThrows f d out m = Some e" by blast
    with transformWith_throw[of pre f d out m e post] assms show ?thesis by simp
  qed
qed

lemma transformWith_Inl:
  assumes "transformWith f d ms out = (Inl e, calls)"
  shows "\<exists>m \<in> set ms. renderThrows f d out m = Some e"
proof -
  from first_throw[of ms f d out] show ?thesis
  proof
    assume ok: "\<forall>m \<in> set ms. renderThrows f d out m = None"
    from transformWith_ok[OF ok] assms show ?thesis by simp
  next
    assume "\<exists>pre m post e. ms = pre @ m # post \<and> (\<forall>x \<in> set pre. renderThrows f d out x = None) \<and>
        renderThrows f d out m = Some e"
    then obtain pre m post e' where "ms = pre @ m # post"
      "\<forall>x \<in> set pre. renderThrows f d out x = None" "renderThrows f d out m = Some e'" by blast
    with transformWith_throw[of pre f d out m e' post] assms show ?thesis by auto
  qed
qed

lemma transformMimeTypes_transformWith:
  "transformMimeTypes P this out =
     transformWith (findBestMatchedRenderer (renderingHandler this)) (docRef this)
       (sortedMimeTypesFor P (outputDisplayOrder (renderingHandler this)) (doc_displayOrder this) out)
       out"
  by (simp add: transformMimeTypes_def transformWith_def)

lemma controller_transformMimeTypes_transformWith:
  "controller_transformMimeTypes P this document order out =
     transformWith (controller_findBestMatchedRenderer this) document
       (sortedMimeTypesFor P (controller_outputDisplayOrder this) order out) out"
  by (simp add: controller_transformMimeTypes_def transformWith_def)

lemma set_sortedMimeTypesFor: "set (sortedMimeTypesFor P c order out) = set (object_keys (data out))"
  by (simp add: sortedMimeTypesFor_def sortMimeTypes_def)

lemma distinct_sortedMimeTypesFor:
  "distinct (sortedMimeTypesFor P c order out) = distinct (object_keys (data out))"
  by (simp add: sortedMimeTypesFor_def sortMimeTypes_def)

lemma filter_concat_keyed:
  assumes key: "\<And>y c. c \<in> set (g y) \<Longrightarrow> key c = y"
  shows "distinct xs \<Longrightarrow> x \<in> set xs \<Longrightarrow> filter (\<lambda>c. key c = x) (concat (map g xs)) = g x"
proof (induction xs)
  case Nil
  then show ?case by simp
next
  case (Cons y ys)
  have none: "filter (\<lambda>c. key c = x) (concat (map g zs)) = []" if "x \<notin> set zs" for zs
    using that key by (induction zs) (auto simp: filter_empty_conv)
  show ?case
  proof (cases "y = x")
    case True
    with Cons.prems have "x \<notin> set ys" by simp
    moreover have "filter (\<lambda>c. key c = x) (g x) = g x" using key by (simp add: filter_id_conv)
    ultimately show ?thesis using True by (simp add: none)
  next
    case False
    then have "filter (\<lambda>c. key c = x) (g y) = []" using key by (auto simp: filter_empty_conv)
    with False Cons show ?thesis by simp
  qed
qed

lemma candidatesOf_mimeType: "c \<in> set (candidatesOf f d out m) \<Longrightarrow> mimeType c = m"
  by (auto simp: candidatesOf_def noRendererCandidate_def resolvedCandidate_def
        alternativeCandidate_def coreCandidate_def split: list.splits sum.splits if_splits)

lemma callsOf_mime: "c \<in> set (callsOf f m) \<Longrightarrow> snd c = m"
  by (auto simp: callsOf_def split: list.splits)

lemma transformWith_candidates_of:
  assumes "transformWith f d ms out = (Inr ret, calls)" "distinct ms" "m \<in> set ms"
  shows "filter (\<lambda>c. mimeType c = m) (orderedMimeTypes ret) = candidatesOf f d out m"
    and "filter (\<lambda>c. snd c = m) calls = callsOf f m"
    and "renderThrows f d out m = None"
proof -
  from transformWith_Inr[OF assms(1)]
  have ok: "\<forall>m \<in> set ms. renderThrows f d out m = None"
    and o: "orderedMimeTypes ret = concat (map (candidatesOf f d out) ms)"
    and c: "calls = concat (map (callsOf f) ms)" by simp_all
  show "filter (\<lambda>c. mimeType c = m) (orderedMimeTypes ret) = candidatesOf f d out m"
    unfolding o by (rule filter_concat_keyed[OF candidatesOf_mimeType assms(2,3)])
  show "filter (\<lambda>c. snd c = m) calls = callsOf f m"
    unfolding c by (rule filter_concat_keyed[OF callsOf_mime assms(2,3)])
  from ok assms(3) show "renderThrows f d out m = None" by simp
qed

lemma transformWith_first_renderer_only:
  assumes "transformWith f d ms out = (Inr ret, calls)" "distinct ms" "m \<in> set ms"
    and "f m = handler0 # handlers"
  shows "\<exists>html. render handler0 d out m = Inr html \<and>
           filter (\<lambda>c. mimeType c = m) (orderedMimeTypes ret) =
             \<lparr>mimeType = m, isResolved = True, rendererId = Some (handle handler0),
              output' = Some html\<rparr> #
             map (\<lambda>h. \<lparr>mimeType = m, isResolved = False, rendererId = Some (handle h),
                        output' = None\<rparr>) handlers @
             (if mimeTypeSupportedByCore m
              then [\<lparr>mimeType = m, isResolved = False, rendererId = Some (- 1), output' = None\<rparr>]
              else []) \<and>
           filter (\<lambda>c. snd c = m) calls = [(handle handler0, m)]"
proof -
  note facts = transformWith_candidates_of[OF assms(1,2,3)]
  from facts(3) assms(4) obtain html where html: "render handler0 d out m = Inr html"
    by (auto simp: renderThrows_def split: sum.splits)
  have "candidatesOf f d out m =
          \<lparr>mimeType = m, isResolved = True, rendererId = Some (handle handler0),
           output' = Some html\<rparr> #
          map (\<lambda>h. \<lparr>mimeType = m, isResolved = False, rendererId = Some (handle h),
                     output' = None\<rparr>) handlers @
          (if mimeTypeSupportedByCore m
           then [\<lparr>mimeType = m, isResolved = False, rendererId = Some (- 1), output' = None\<rparr>]
           else [])"
    using assms(4) html
    by (simp add: candidatesOf_def resolvedCandidate_def alternativeCandidate_def coreCandidate_def)
  moreover have "callsOf f m = [(handle handler0, m)]"
    using assms(4) by (simp add: callsOf_def)
  ultimately show ?thesis using facts(1,2) html by simp
qed

lemma transformWith_no_renderer:
  assumes "transformWith f d ms out = (Inr ret, calls)" "distinct ms" "m \<in> set ms"
    and "f m = []"
  shows "filter (\<lambda>c. mimeType c = m) (orderedMimeTypes ret) =
           [\<lparr>mimeType = m, isResolved = False, rendererId = None, output' = None\<rparr>]"
  using transformWith_candidates_of(1)[OF assms(1,2,3)] assms(4)
  by (simp add: candidatesOf_def noRendererCandidate_def)

lemma transformWith_core_candidate:
  assumes "transformWith f d ms out = (Inr ret, calls)" "m \<in> set ms"
    and "f m \<noteq> []" "mimeTypeSupportedByCore m"
  shows "\<lparr>mimeType = m, isResolved = False, rendererId = Some (- 1), output' = None\<rparr>
           \<in> set (orderedMimeTypes ret)"
proof -
  from transformWith_Inr[OF assms(1)]
  have ok: "renderThrows f d out m = None"
    and o: "orderedMimeTypes ret = concat (map (candidatesOf f d out) ms)"
    using assms(2) by simp_all
  from assms(3) obtain h hs where f: "f m = h # hs" by (cases "f m") auto
  with ok obtain html where "render h d out m = Inr html"
    by (auto simp: renderThrows_def split: sum.splits)
  with f assms(4)
  have "\<lparr>mimeType = m, isResolved = False, rendererId = Some (- 1), output' = None\<rparr>
          \<in> set (candidatesOf f d out m)"
    by (simp add: candidatesOf_def coreCandidate_def)
  with assms(2) show ?thesis unfolding o by auto
qed

section \<open>The concrete inputs, evaluated\<close>

lemmas example_defs =
  exampleDocument_def exampleController_def exampleRenderers_def literalPlatform_def
  htmlRenderer0_def htmlRenderer1_def pngRenderer_def
  literalGlob_def renderHtml_def renderFails_def NOTEBOOK_DISPLAY_ORDER_def
  controller_findBestMatchedRenderer_def matches_def render_def
  sortedMimeTypesFor_def sortMimeTypes_def getMimeTypeOrder_def matchGlobUniversal_def
  object_keys_def mimeTypeSupportedByCore_def

lemma example_find:
  "controller_findBestMatchedRenderer exampleController ''text/html'' = [htmlRenderer0, htmlRenderer1]"
  "controller_findBestMatchedRenderer exampleController ''text/plain'' = []"
  "controller_findBestMatchedRenderer exampleController ''application/x-custom'' = []"
  "controller_findBestMatchedRenderer exampleController ''image/png'' = [pngRenderer]"
  by (simp_all add: example_defs)

lemma example_document:
  "findBestMatchedRenderer (renderingHandler exampleDocument) =
     controller_findBestMatchedRenderer exampleController"
  "outputDisplayOrder (renderingHandler exampleDocument) = controller_outputDisplayOrder exampleController"
  "doc_displayOrder exampleDocument = []"
  "docRef exampleDocument = ()"
  by (simp_all add: exampleDocument_def)

lemma example_sorted:
  "sortedMimeTypesFor literalPlatform (controller_outputDisplayOrder exampleController) [] htmlOutput
     = [''text/html'', ''text/plain'', ''application/x-custom'']"
  "sortedMimeTypesFor literalPlatform (controller_outputDisplayOrder exampleController) [] pngOutput
     = [''text/html'', ''image/png'', ''text/plain'']"
  "sortedMimeTypesFor literalPlatform (controller_outputDisplayOrder exampleController) [] plainOutput
     = [''text/plain'']"
  "sortedMimeTypesFor literalPlatform (controller_outputDisplayOrder exampleController) [] emptyOutput
     = []"
  by (simp_all add: example_defs htmlOutput_def pngOutput_def plainOutput_def emptyOutput_def)

lemma example_keys:
  "object_keys (data htmlOutput) = [''text/plain'', ''text/html'', ''application/x-custom'']"
  "object_keys (data pngOutput) = [''text/plain'', ''image/png'', ''text/html'']"
  "object_keys (data plainOutput) = [''text/plain'']"
  by (simp_all add: object_keys_def htmlOutput_def pngOutput_def plainOutput_def)

lemma example_core:
  "mimeTypeSupportedByCore ''text/html''"
  "mimeTypeSupportedByCore ''text/plain''"
  "\<not> mimeTypeSupportedByCore ''application/x-custom''"
  by (simp_all add: mimeTypeSupportedByCore_def)

lemma example_render:
  "render htmlRenderer0 () out mime = Inr ''<b>rendered</b>''"
  "render htmlRenderer1 () out mime = Inl (Thrown ''render failed'')"
  "render pngRenderer () out mime = Inl (Thrown ''render failed'')"
  by (simp_all add: example_defs)

lemma example_handles:
  "handle htmlRenderer0 = 0" "handle htmlRenderer1 = 1" "handle pngRenderer = 2"
  by (simp_all add: example_defs)

lemma example_transform_html:
  "transformMimeTypes literalPlatform exampleDocument htmlOutput =
     (Inr htmlTransformed, [(0, ''text/html'')])"
  "controller_transformMimeTypes literalPlatform exampleController () [] htmlOutput =
     (Inr htmlTransformed, [(0, ''text/html'')])"
  by (simp_all add: transformMimeTypes_def controller_transformMimeTypes_def example_document
        example_sorted example_find example_render example_handles example_core
        htmlTransformed_def)
     (simp_all add: htmlOutput_def)

lemma example_transform_plain:
  "transformMimeTypes literalPlatform exampleDocument plainOutput = (Inr plainTransformed, [])"
  "controller_transformMimeTypes literalPlatform exampleController () [] plainOutput =
     (Inr plainTransformed, [])"
  by (simp_all add: transformMimeTypes_def controller_transformMimeTypes_def example_document
        example_sorted example_find plainTransformed_def)
     (simp_all add: plainOutput_def)

lemma example_transform_png:
  "transformMimeTypes literalPlatform exampleDocument pngOutput =
     (Inl (Thrown ''render failed''), [(0, ''text/html''), (2, ''image/png'')])"
  "controller_transformMimeTypes literalPlatform exampleController () [] pngOutput =
     (Inl (Thrown ''render failed''), [(0, ''text/html''), (2, ''image/png'')])"
  by (simp_all add: transformMimeTypes_def controller_transformMimeTypes_def example_document
        example_sorted example_find example_render example_handles example_core)

lemma example_transform_empty:
  "transformMimeTypes literalPlatform exampleDocument emptyOutput =
     (Inr \<lparr>outputKind = Rich, data = [], orderedMimeTypes = [], pickedMimeTypeIndex = 0\<rparr>, [])"
  "controller_transformMimeTypes literalPlatform exampleController () [] emptyOutput =
     (Inr \<lparr>outputKind = Rich, data = [], orderedMimeTypes = [], pickedMimeTypeIndex = 0\<rparr>, [])"
  by (simp_all add: transformMimeTypes_def controller_transformMimeTypes_def example_document
        example_sorted)
     (simp_all add: emptyOutput_def)

section \<open>Candidates of the transform\<close>

lemma transformWith_core_cases:
  assumes t: "transformWith f d (sortedMimeTypesFor P c ord out) out = (Inr r, cs)"
    and m: "mime \<in> set (object_keys (data out))" and core: "mimeTypeSupportedByCore mime"
  shows "(f mime \<noteq> [] \<longrightarrow>
         \<lparr>mimeType = mime, isResolved = False, rendererId = Some (- 1), output' = None\<rparr>
           \<in> set (orderedMimeTypes r)) \<and>
      (f mime = [] \<and> distinct (object_keys (data out)) \<longrightarrow>
         filter (\<lambda>c. mimeType c = mime) (orderedMimeTypes r) =
           [\<lparr>mimeType = mime, isResolved = False, rendererId = None, output' = None\<rparr>])"
proof (intro conjI impI)
  assume "f mime \<noteq> []"
  with t m core show "\<lparr>mimeType = mime, isResolved = False, rendererId = Some (- 1), output' = None\<rparr>
         \<in> set (orderedMimeTypes r)"
    by (intro transformWith_core_candidate[OF t]) (simp_all add: set_sortedMimeTypesFor)
next
  assume "f mime = [] \<and> distinct (object_keys (data out))"
  with t m show "filter (\<lambda>c. mimeType c = mime) (orderedMimeTypes r) =
         [\<lparr>mimeType = mime, isResolved = False, rendererId = None, output' = None\<rparr>]"
    by (intro transformWith_no_renderer[OF t])
       (simp_all add: set_sortedMimeTypesFor distinct_sortedMimeTypesFor)
qed

text \<open>
  C1, as the code has it. For a mime type of the output that the core supports and for
  which \<open>findBestMatchedRenderer\<close> returns at least one renderer, the list returned by
  \<open>transformMimeTypes\<close>, and by \<open>_transformMimeTypes\<close>, contains the candidate
  \<open>{mimeType, isResolved: false, rendererId: -1}\<close>. When no renderer is returned, the one
  candidate of the mime type is \<open>{mimeType, isResolved: false}\<close> without a
  \<open>rendererId\<close>, supported by the core or not. (The sorted list holds the keys of
  \<open>data\<close>, each once.)
\<close>

theorem transformMimeTypes_core_candidate:
  "(transformMimeTypes P this out = (Inr ret, calls) \<and>
    mime \<in> set (object_keys (data out)) \<and> mimeTypeSupportedByCore mime \<longrightarrow>
      (findBestMatchedRenderer (renderingHandler this) mime \<noteq> [] \<longrightarrow>
         \<lparr>mimeType = mime, isResolved = False, rendererId = Some (- 1), output' = None\<rparr>
           \<in> set (orderedMimeTypes ret)) \<and>
      (findBestMatchedRenderer (renderingHandler this) mime = [] \<and>
       distinct (object_keys (data out)) \<longrightarrow>
         filter (\<lambda>c. mimeType c = mime) (orderedMimeTypes ret) =
           [\<lparr>mimeType = mime, isResolved = False, rendererId = None, output' = None\<rparr>])) \<and>
   (controller_transformMimeTypes P controller document order out = (Inr ret', calls') \<and>
    mime \<in> set (object_keys (data out)) \<and> mimeTypeSupportedByCore mime \<longrightarrow>
      (controller_findBestMatchedRenderer controller mime \<noteq> [] \<longrightarrow>
         \<lparr>mimeType = mime, isResolved = False, rendererId = Some (- 1), output' = None\<rparr>
           \<in> set (orderedMimeTypes ret')) \<and>
      (controller_findBestMatchedRenderer controller mime = [] \<and>
       distinct (object_keys (data out)) \<longrightarrow>
         filter (\<lambda>c. mimeType c = mime) (orderedMimeTypes ret') =
           [\<lparr>mimeType = mime, isResolved = False, rendererId = None, output' = None\<rparr>]))"
  using transformWith_core_cases[of "findBestMatchedRenderer (renderingHandler this)" "docRef this"
          P "outputDisplayOrder (renderingHandler this)" "doc_displayOrder this" out ret calls mime]
        transformWith_core_cases[of "controller_findBestMatchedRenderer controller" document
          P "controller_outputDisplayOrder controller" order out ret' calls' mime]
  by (simp only: transformMimeTypes_transformWith controller_transformMimeTypes_transformWith)
     blast

theorem transformMimeTypes_core_candidate_counterexample:
  "mimeTypeSupportedByCore ''text/plain'' \<and>
   sortedMimeTypesFor literalPlatform (outputDisplayOrder (renderingHandler exampleDocument))
      (doc_displayOrder exampleDocument) plainOutput = [''text/plain''] \<and>
   findBestMatchedRenderer (renderingHandler exampleDocument) ''text/plain'' = [] \<and>
   controller_findBestMatchedRenderer exampleController ''text/plain'' = [] \<and>
   transformMimeTypes literalPlatform exampleDocument plainOutput = (Inr plainTransformed, []) \<and>
   controller_transformMimeTypes literalPlatform exampleController () [] plainOutput =
     (Inr plainTransformed, []) \<and>
   orderedMimeTypes plainTransformed =
     [\<lparr>mimeType = ''text/plain'', isResolved = False, rendererId = None, output' = None\<rparr>] \<and>
   \<lparr>mimeType = ''text/plain'', isResolved = False, rendererId = Some (- 1), output' = None\<rparr>
     \<notin> set (orderedMimeTypes plainTransformed)"
  by (simp add: example_transform_plain example_core example_document example_sorted example_find)
     (simp add: plainTransformed_def)

theorem transformMimeTypes_core_candidate_witness:
  "transformMimeTypes literalPlatform exampleDocument htmlOutput =
     (Inr htmlTransformed, [(0, ''text/html'')]) \<and>
   controller_transformMimeTypes literalPlatform exampleController () [] htmlOutput =
     (Inr htmlTransformed, [(0, ''text/html'')]) \<and>
   distinct (object_keys (data htmlOutput)) \<and>
   ''text/html'' \<in> set (object_keys (data htmlOutput)) \<and>
   mimeTypeSupportedByCore ''text/html'' \<and>
   findBestMatchedRenderer (renderingHandler exampleDocument) ''text/html'' \<noteq> [] \<and>
   controller_findBestMatchedRenderer exampleController ''text/html'' \<noteq> [] \<and>
   \<lparr>mimeType = ''text/html'', isResolved = False, rendererId = Some (- 1), output' = None\<rparr>
     \<in> set (orderedMimeTypes htmlTransformed) \<and>
   ''text/plain'' \<in> set (object_keys (data htmlOutput)) \<and>
   mimeTypeSupportedByCore ''text/plain'' \<and>
   findBestMatchedRenderer (renderingHandler exampleDocument) ''text/plain'' = [] \<and>
   controller_findBestMatchedRenderer exampleController ''text/plain'' = [] \<and>
   filter (\<lambda>c. mimeType c = ''text/plain'') (orderedMimeTypes htmlTransformed) =
     [\<lparr>mimeType = ''text/plain'', isResolved = False, rendererId = None, output' = None\<rparr>]"
proof -
  have ev: "transformMimeTypes literalPlatform exampleDocument htmlOutput =
     (Inr htmlTransformed, [(0, ''text/html'')])"
    "controller_transformMimeTypes literalPlatform exampleController () [] htmlOutput =
     (Inr htmlTransformed, [(0, ''text/html'')])"
    by (rule example_transform_html)+
  have h: "distinct (object_keys (data htmlOutput))"
    "''text/html'' \<in> set (object_keys (data htmlOutput))"
    "''text/plain'' \<in> set (object_keys (data htmlOutput))"
    "mimeTypeSupportedByCore ''text/html''" "mimeTypeSupportedByCore ''text/plain''"
    by (simp_all add: example_keys example_core)
  have f: "findBestMatchedRenderer (renderingHandler exampleDocument) ''text/html'' \<noteq> []"
    "controller_findBestMatchedRenderer exampleController ''text/html'' \<noteq> []"
    "findBestMatchedRenderer (renderingHandler exampleDocument) ''text/plain'' = []"
    "controller_findBestMatchedRenderer exampleController ''text/plain'' = []"
    by (simp_all add: example_document example_find)
  from transformMimeTypes_core_candidate[of literalPlatform exampleDocument htmlOutput
          htmlTransformed "[(0, ''text/html'')]" "''text/html''" exampleController "()" "[]"
          htmlTransformed "[(0, ''text/html'')]"] ev h f
  have c1: "\<lparr>mimeType = ''text/html'', isResolved = False, rendererId = Some (- 1), output' = None\<rparr>
     \<in> set (orderedMimeTypes htmlTransformed)" by blast
  from transformMimeTypes_core_candidate[of literalPlatform exampleDocument htmlOutput
          htmlTransformed "[(0, ''text/html'')]" "''text/plain''" exampleController "()" "[]"
          htmlTransformed "[(0, ''text/html'')]"] ev h f
  have c2: "filter (\<lambda>c. mimeType c = ''text/plain'') (orderedMimeTypes htmlTransformed) =
     [\<lparr>mimeType = ''text/plain'', isResolved = False, rendererId = None, output' = None\<rparr>]"
    by blast
  from ev h f c1 c2 show ?thesis by blast
qed

text \<open>
  C5. For a mime type of the output for which \<open>findBestMatchedRenderer\<close> returns a
  non-empty list, \<open>transformMimeTypes\<close> (and \<open>_transformMimeTypes\<close>) calls \<open>render\<close>
  once, of the first renderer of the list, and its candidates for that mime type are: the
  resolved one, with the handle of the first renderer and the output it rendered; then,
  for each further renderer in order, an unresolved one with that renderer's handle; and
  after these the candidate with \<open>rendererId\<close> -1 when the core supports the mime type.
  No further \<open>render\<close> call is made for the mime type.
\<close>

theorem transformMimeTypes_first_renderer_only:
  "(transformMimeTypes P this out = (Inr ret, calls) \<and>
    distinct (object_keys (data out)) \<and> mime \<in> set (object_keys (data out)) \<and>
    findBestMatchedRenderer (renderingHandler this) mime = handler0 # handlers \<longrightarrow>
      (\<exists>html. render handler0 (docRef this) out mime = Inr html \<and>
         filter (\<lambda>c. mimeType c = mime) (orderedMimeTypes ret) =
           \<lparr>mimeType = mime, isResolved = True, rendererId = Some (handle handler0),
            output' = Some html\<rparr> #
           map (\<lambda>h. \<lparr>mimeType = mime, isResolved = False, rendererId = Some (handle h),
                      output' = None\<rparr>) handlers @
           (if mimeTypeSupportedByCore mime
            then [\<lparr>mimeType = mime, isResolved = False, rendererId = Some (- 1), output' = None\<rparr>]
            else []) \<and>
         filter (\<lambda>c. snd c = mime) calls = [(handle handler0, mime)])) \<and>
   (controller_transformMimeTypes P controller document order out = (Inr ret', calls') \<and>
    distinct (object_keys (data out)) \<and> mime \<in> set (object_keys (data out)) \<and>
    controller_findBestMatchedRenderer controller mime = handler0' # handlers' \<longrightarrow>
      (\<exists>html. render handler0' document out mime = Inr html \<and>
         filter (\<lambda>c. mimeType c = mime) (orderedMimeTypes ret') =
           \<lparr>mimeType = mime, isResolved = True, rendererId = Some (handle handler0'),
            output' = Some html\<rparr> #
           map (\<lambda>h. \<lparr>mimeType = mime, isResolved = False, rendererId = Some (handle h),
                      output' = None\<rparr>) handlers' @
           (if mimeTypeSupportedByCore mime
            then [\<lparr>mimeType = mime, isResolved = False, rendererId = Some (- 1), output' = None\<rparr>]
            else []) \<and>
         filter (\<lambda>c. snd c = mime) calls' = [(handle handler0', mime)]))"
proof (intro conjI impI)
  assume a: "transformMimeTypes P this out = (Inr ret, calls) \<and>
    distinct (object_keys (data out)) \<and> mime \<in> set (object_keys (data out)) \<and>
    findBestMatchedRenderer (renderingHandler this) mime = handler0 # handlers"
  then have t: "transformWith (findBestMatchedRenderer (renderingHandler this)) (docRef this)
       (sortedMimeTypesFor P (outputDisplayOrder (renderingHandler this)) (doc_displayOrder this) out)
       out = (Inr ret, calls)"
    by (simp add: transformMimeTypes_transformWith)
  from a show "\<exists>html. render handler0 (docRef this) out mime = Inr html \<and>
         filter (\<lambda>c. mimeType c = mime) (orderedMimeTypes ret) =
           \<lparr>mimeType = mime, isResolved = True, rendererId = Some (handle handler0),
            output' = Some html\<rparr> #
           map (\<lambda>h. \<lparr>mimeType = mime, isResolved = False, rendererId = Some (handle h),
                      output' = None\<rparr>) handlers @
           (if mimeTypeSupportedByCore mime
            then [\<lparr>mimeType = mime, isResolved = False, rendererId = Some (- 1), output' = None\<rparr>]
            else []) \<and>
         filter (\<lambda>c. snd c = mime) calls = [(handle handler0, mime)]"
    by (intro transformWith_first_renderer_only[OF t])
       (simp_all add: set_sortedMimeTypesFor distinct_sortedMimeTypesFor)
next
  assume a: "controller_transformMimeTypes P controller document order out = (Inr ret', calls') \<and>
    distinct (object_keys (data out)) \<and> mime \<in> set (object_keys (data out)) \<and>
    controller_findBestMatchedRenderer controller mime = handler0' # handlers'"
  then have t: "transformWith (controller_findBestMatchedRenderer controller) document
       (sortedMimeTypesFor P (controller_outputDisplayOrder controller) order out) out
       = (Inr ret', calls')"
    by (simp add: controller_transformMimeTypes_transformWith)
  from a show "\<exists>html. render handler0' document out mime = Inr html \<and>
         filter (\<lambda>c. mimeType c = mime) (orderedMimeTypes ret') =
           \<lparr>mimeType = mime, isResolved = True, rendererId = Some (handle handler0'),
            output' = Some html\<rparr> #
           map (\<lambda>h. \<lparr>mimeType = mime, isResolved = False, rendererId = Some (handle h),
                      output' = None\<rparr>) handlers' @
           (if mimeTypeSupportedByCore mime
            then [\<lparr>mimeType = mime, isResolved = False, rendererId = Some (- 1), output' = None\<rparr>]
            else []) \<and>
         filter (\<lambda>c. snd c = mime) calls' = [(handle handler0', mime)]"
    by (intro transformWith_first_renderer_only[OF t])
       (simp_all add: set_sortedMimeTypesFor distinct_sortedMimeTypesFor)
qed

theorem transformMimeTypes_first_renderer_only_witness:
  "transformMimeTypes literalPlatform exampleDocument htmlOutput =
     (Inr htmlTransformed, [(0, ''text/html'')]) \<and>
   controller_transformMimeTypes literalPlatform exampleController () [] htmlOutput =
     (Inr htmlTransformed, [(0, ''text/html'')]) \<and>
   distinct (object_keys (data htmlOutput)) \<and>
   ''text/html'' \<in> set (object_keys (data htmlOutput)) \<and>
   findBestMatchedRenderer (renderingHandler exampleDocument) ''text/html'' =
     [htmlRenderer0, htmlRenderer1] \<and>
   controller_findBestMatchedRenderer exampleController ''text/html'' =
     [htmlRenderer0, htmlRenderer1] \<and>
   render htmlRenderer0 () htmlOutput ''text/html'' = Inr ''<b>rendered</b>'' \<and>
   render htmlRenderer1 () htmlOutput ''text/html'' = Inl (Thrown ''render failed'') \<and>
   filter (\<lambda>c. mimeType c = ''text/html'') (orderedMimeTypes htmlTransformed) =
     [\<lparr>mimeType = ''text/html'', isResolved = True, rendererId = Some 0,
       output' = Some ''<b>rendered</b>''\<rparr>,
      \<lparr>mimeType = ''text/html'', isResolved = False, rendererId = Some 1, output' = None\<rparr>,
      \<lparr>mimeType = ''text/html'', isResolved = False, rendererId = Some (- 1), output' = None\<rparr>] \<and>
   filter (\<lambda>c. snd c = ''text/html'') [(0::int, ''text/html'')] = [(0, ''text/html'')]"
proof -
  have ev: "transformMimeTypes literalPlatform exampleDocument htmlOutput =
     (Inr htmlTransformed, [(0, ''text/html'')])"
    "controller_transformMimeTypes literalPlatform exampleController () [] htmlOutput =
     (Inr htmlTransformed, [(0, ''text/html'')])"
    by (rule example_transform_html)+
  have h: "distinct (object_keys (data htmlOutput))"
    "''text/html'' \<in> set (object_keys (data htmlOutput))"
    by (simp_all add: example_keys)
  have f: "findBestMatchedRenderer (renderingHandler exampleDocument) ''text/html'' =
     htmlRenderer0 # [htmlRenderer1]"
    "controller_findBestMatchedRenderer exampleController ''text/html'' =
     htmlRenderer0 # [htmlRenderer1]"
    by (simp_all add: example_document example_find)
  have r: "render htmlRenderer0 () htmlOutput ''text/html'' = Inr ''<b>rendered</b>''"
    "render htmlRenderer1 () htmlOutput ''text/html'' = Inl (Thrown ''render failed'')"
    by (rule example_render)+
  from transformMimeTypes_first_renderer_only[of literalPlatform exampleDocument htmlOutput
          htmlTransformed "[(0, ''text/html'')]" "''text/html''" htmlRenderer0 "[htmlRenderer1]"
          exampleController "()" "[]" htmlTransformed "[(0, ''text/html'')]"
          htmlRenderer0 "[htmlRenderer1]"] ev h f
  obtain html where "render htmlRenderer0 (docRef exampleDocument) htmlOutput ''text/html'' = Inr html"
    and c: "filter (\<lambda>c. mimeType c = ''text/html'') (orderedMimeTypes htmlTransformed) =
           \<lparr>mimeType = ''text/html'', isResolved = True, rendererId = Some (handle htmlRenderer0),
            output' = Some html\<rparr> #
           map (\<lambda>h. \<lparr>mimeType = ''text/html'', isResolved = False, rendererId = Some (handle h),
                      output' = None\<rparr>) [htmlRenderer1] @
           (if mimeTypeSupportedByCore ''text/html''
            then [\<lparr>mimeType = ''text/html'', isResolved = False, rendererId = Some (- 1),
                   output' = None\<rparr>]
            else [])"
    and k: "filter (\<lambda>c. snd c = ''text/html'') [(0::int, ''text/html'')] =
            [(handle htmlRenderer0, ''text/html'')]"
    by blast
  then have "html = ''<b>rendered</b>''" using r(1) by (simp add: example_document)
  with c k have "filter (\<lambda>c. mimeType c = ''text/html'') (orderedMimeTypes htmlTransformed) =
     [\<lparr>mimeType = ''text/html'', isResolved = True, rendererId = Some 0,
       output' = Some ''<b>rendered</b>''\<rparr>,
      \<lparr>mimeType = ''text/html'', isResolved = False, rendererId = Some 1, output' = None\<rparr>,
      \<lparr>mimeType = ''text/html'', isResolved = False, rendererId = Some (- 1), output' = None\<rparr>]"
    "filter (\<lambda>c. snd c = ''text/html'') [(0::int, ''text/html'')] = [(0, ''text/html'')]"
    by (simp_all add: example_handles example_core)
  with ev h f r show ?thesis by simp
qed

section \<open>Exceptions of the transform, and what it passes on\<close>

lemma renderThrows_None_iff:
  "renderThrows f d out m = None \<longleftrightarrow>
     (\<forall>h hs. f m = h # hs \<longrightarrow> (\<exists>html. render h d out m = Inr html))"
  by (cases "f m"; cases "render (hd (f m)) d out m") (auto simp: renderThrows_def)

lemma renderThrows_Some_iff:
  "renderThrows f d out m = Some e \<longleftrightarrow> (\<exists>h hs. f m = h # hs \<and> render h d out m = Inl e)"
  by (cases "f m"; cases "render (hd (f m)) d out m") (auto simp: renderThrows_def)

lemma calls_of_prefix:
  "concat (map (callsOf f) ms) = map (\<lambda>m. (handle (hd (f m)), m)) (filter (\<lambda>m. f m \<noteq> []) ms)"
  by (induction ms) (auto simp: callsOf_def split: list.splits)

lemma transformWith_throw_explicit:
  assumes "ms = pre @ m # post"
    and "\<forall>x \<in> set pre. \<forall>h hs. f x = h # hs \<longrightarrow> (\<exists>html. render h d out x = Inr html)"
    and "f m = h0 # hs0" and "render h0 d out m = Inl e"
  shows "transformWith f d ms out =
           (Inl e, map (\<lambda>x. (handle (hd (f x)), x)) (filter (\<lambda>x. f x \<noteq> []) pre) @ [(handle h0, m)])"
proof -
  from assms(2) have pre: "\<forall>x \<in> set pre. renderThrows f d out x = None"
    by (simp add: renderThrows_None_iff)
  from assms(3,4) have m: "renderThrows f d out m = Some e"
    by (simp add: renderThrows_Some_iff)
  have "callsOf f m = [(handle h0, m)]" using assms(3) by (simp add: callsOf_def)
  with transformWith_throw[OF pre m, of post] show ?thesis
    by (simp add: assms(1) calls_of_prefix)
qed

lemma transformWith_Inl_explicit:
  assumes "transformWith f d ms out = (Inl e, calls)"
  shows "\<exists>m \<in> set ms. \<exists>h hs. f m = h # hs \<and> render h d out m = Inl e"
  using transformWith_Inl[OF assms] by (simp add: renderThrows_Some_iff)

text \<open>
  C6. For a mime type of the output for which \<open>findBestMatchedRenderer\<close> returns the
  empty list and which the core does not support, the list that \<open>transformMimeTypes\<close>
  (and \<open>_transformMimeTypes\<close>) returns has exactly one candidate of that mime type,
  \<open>{mimeType, isResolved: false}\<close>, in which \<open>rendererId\<close> is absent.
\<close>

theorem transformMimeTypes_no_renderer_no_core:
  "(transformMimeTypes P this out = (Inr ret, calls) \<and>
    distinct (object_keys (data out)) \<and> mime \<in> set (object_keys (data out)) \<and>
    findBestMatchedRenderer (renderingHandler this) mime = [] \<and>
    \<not> mimeTypeSupportedByCore mime \<longrightarrow>
      filter (\<lambda>c. mimeType c = mime) (orderedMimeTypes ret) =
        [\<lparr>mimeType = mime, isResolved = False, rendererId = None, output' = None\<rparr>]) \<and>
   (controller_transformMimeTypes P controller document order out = (Inr ret', calls') \<and>
    distinct (object_keys (data out)) \<and> mime \<in> set (object_keys (data out)) \<and>
    controller_findBestMatchedRenderer controller mime = [] \<and>
    \<not> mimeTypeSupportedByCore mime \<longrightarrow>
      filter (\<lambda>c. mimeType c = mime) (orderedMimeTypes ret') =
        [\<lparr>mimeType = mime, isResolved = False, rendererId = None, output' = None\<rparr>])"
proof (intro conjI impI)
  assume a: "transformMimeTypes P this out = (Inr ret, calls) \<and>
    distinct (object_keys (data out)) \<and> mime \<in> set (object_keys (data out)) \<and>
    findBestMatchedRenderer (renderingHandler this) mime = [] \<and>
    \<not> mimeTypeSupportedByCore mime"
  then have t: "transformWith (findBestMatchedRenderer (renderingHandler this)) (docRef this)
       (sortedMimeTypesFor P (outputDisplayOrder (renderingHandler this)) (doc_displayOrder this) out)
       out = (Inr ret, calls)"
    by (simp add: transformMimeTypes_transformWith)
  from a show "filter (\<lambda>c. mimeType c = mime) (orderedMimeTypes ret) =
        [\<lparr>mimeType = mime, isResolved = False, rendererId = None, output' = None\<rparr>]"
    by (intro transformWith_no_renderer[OF t])
       (simp_all add: set_sortedMimeTypesFor distinct_sortedMimeTypesFor)
next
  assume a: "controller_transformMimeTypes P controller document order out = (Inr ret', calls') \<and>
    distinct (object_keys (data out)) \<and> mime \<in> set (object_keys (data out)) \<and>
    controller_findBestMatchedRenderer controller mime = [] \<and>
    \<not> mimeTypeSupportedByCore mime"
  then have t: "transformWith (controller_findBestMatchedRenderer controller) document
       (sortedMimeTypesFor P (controller_outputDisplayOrder controller) order out) out
       = (Inr ret', calls')"
    by (simp add: controller_transformMimeTypes_transformWith)
  from a show "filter (\<lambda>c. mimeType c = mime) (orderedMimeTypes ret') =
        [\<lparr>mimeType = mime, isResolved = False, rendererId = None, output' = None\<rparr>]"
    by (intro transformWith_no_renderer[OF t])
       (simp_all add: set_sortedMimeTypesFor distinct_sortedMimeTypesFor)
qed

theorem transformMimeTypes_no_renderer_no_core_witness:
  "transformMimeTypes literalPlatform exampleDocument htmlOutput =
     (Inr htmlTransformed, [(0, ''text/html'')]) \<and>
   controller_transformMimeTypes literalPlatform exampleController () [] htmlOutput =
     (Inr htmlTransformed, [(0, ''text/html'')]) \<and>
   distinct (object_keys (data htmlOutput)) \<and>
   ''application/x-custom'' \<in> set (object_keys (data htmlOutput)) \<and>
   findBestMatchedRenderer (renderingHandler exampleDocument) ''application/x-custom'' = [] \<and>
   controller_findBestMatchedRenderer exampleController ''application/x-custom'' = [] \<and>
   \<not> mimeTypeSupportedByCore ''application/x-custom'' \<and>
   filter (\<lambda>c. mimeType c = ''application/x-custom'') (orderedMimeTypes htmlTransformed) =
     [\<lparr>mimeType = ''application/x-custom'', isResolved = False, rendererId = None,
       output' = None\<rparr>]"
proof -
  have ev: "transformMimeTypes literalPlatform exampleDocument htmlOutput =
     (Inr htmlTransformed, [(0, ''text/html'')])"
    "controller_transformMimeTypes literalPlatform exampleController () [] htmlOutput =
     (Inr htmlTransformed, [(0, ''text/html'')])"
    by (rule example_transform_html)+
  have h: "distinct (object_keys (data htmlOutput))"
    "''application/x-custom'' \<in> set (object_keys (data htmlOutput))"
    "\<not> mimeTypeSupportedByCore ''application/x-custom''"
    by (simp_all add: example_keys example_core)
  have f: "findBestMatchedRenderer (renderingHandler exampleDocument) ''application/x-custom'' = []"
    "controller_findBestMatchedRenderer exampleController ''application/x-custom'' = []"
    by (simp_all add: example_document example_find)
  from transformMimeTypes_no_renderer_no_core[of literalPlatform exampleDocument htmlOutput
          htmlTransformed "[(0, ''text/html'')]" "''application/x-custom''"
          exampleController "()" "[]" htmlTransformed "[(0, ''text/html'')]"] ev h f
  have "filter (\<lambda>c. mimeType c = ''application/x-custom'') (orderedMimeTypes htmlTransformed) =
     [\<lparr>mimeType = ''application/x-custom'', isResolved = False, rendererId = None,
       output' = None\<rparr>]" by blast
  with ev h f show ?thesis by blast
qed

text \<open>
  C7. \<open>transformMimeTypes\<close> (and \<open>_transformMimeTypes\<close>) catches nothing. When the
  \<open>render\<close> call made for a mime type of the sorted list throws, the calls for the mime
  types before it having returned, the call of the transform throws the same exception:
  it returns no record, the throwing call is the last entry of the log of \<open>render\<close>
  calls, made once, and nothing is called for the mime types after it. An exception of the
  transform is always one that a \<open>render\<close> call it made has thrown.
\<close>

theorem transformMimeTypes_render_throws:
  "(sortedMimeTypesFor P (outputDisplayOrder (renderingHandler this)) (doc_displayOrder this) out
      = pre @ mime # post \<and>
    (\<forall>m \<in> set pre. \<forall>h hs. findBestMatchedRenderer (renderingHandler this) m = h # hs \<longrightarrow>
        (\<exists>html. render h (docRef this) out m = Inr html)) \<and>
    findBestMatchedRenderer (renderingHandler this) mime = handler0 # handlers \<and>
    render handler0 (docRef this) out mime = Inl e \<longrightarrow>
      transformMimeTypes P this out =
        (Inl e,
         map (\<lambda>m. (handle (hd (findBestMatchedRenderer (renderingHandler this) m)), m))
           (filter (\<lambda>m. findBestMatchedRenderer (renderingHandler this) m \<noteq> []) pre) @
         [(handle handler0, mime)])) \<and>
   (transformMimeTypes P this out = (Inl e, calls) \<longrightarrow>
      (\<exists>m \<in> set (object_keys (data out)). \<exists>h hs.
          findBestMatchedRenderer (renderingHandler this) m = h # hs \<and>
          render h (docRef this) out m = Inl e)) \<and>
   (sortedMimeTypesFor P (controller_outputDisplayOrder controller) order out = pre @ mime # post \<and>
    (\<forall>m \<in> set pre. \<forall>h hs. controller_findBestMatchedRenderer controller m = h # hs \<longrightarrow>
        (\<exists>html. render h document out m = Inr html)) \<and>
    controller_findBestMatchedRenderer controller mime = handler0' # handlers' \<and>
    render handler0' document out mime = Inl e \<longrightarrow>
      controller_transformMimeTypes P controller document order out =
        (Inl e,
         map (\<lambda>m. (handle (hd (controller_findBestMatchedRenderer controller m)), m))
           (filter (\<lambda>m. controller_findBestMatchedRenderer controller m \<noteq> []) pre) @
         [(handle handler0', mime)])) \<and>
   (controller_transformMimeTypes P controller document order out = (Inl e, calls') \<longrightarrow>
      (\<exists>m \<in> set (object_keys (data out)). \<exists>h hs.
          controller_findBestMatchedRenderer controller m = h # hs \<and>
          render h document out m = Inl e))"
proof (intro conjI impI)
  assume "sortedMimeTypesFor P (outputDisplayOrder (renderingHandler this)) (doc_displayOrder this) out
      = pre @ mime # post \<and>
    (\<forall>m \<in> set pre. \<forall>h hs. findBestMatchedRenderer (renderingHandler this) m = h # hs \<longrightarrow>
        (\<exists>html. render h (docRef this) out m = Inr html)) \<and>
    findBestMatchedRenderer (renderingHandler this) mime = handler0 # handlers \<and>
    render handler0 (docRef this) out mime = Inl e"
  then show "transformMimeTypes P this out =
        (Inl e,
         map (\<lambda>m. (handle (hd (findBestMatchedRenderer (renderingHandler this) m)), m))
           (filter (\<lambda>m. findBestMatchedRenderer (renderingHandler this) m \<noteq> []) pre) @
         [(handle handler0, mime)])"
    unfolding transformMimeTypes_transformWith
    by (intro transformWith_throw_explicit[where post = post and ?hs0.0 = handlers]) blast+
next
  assume "transformMimeTypes P this out = (Inl e, calls)"
  then show "\<exists>m \<in> set (object_keys (data out)). \<exists>h hs.
          findBestMatchedRenderer (renderingHandler this) m = h # hs \<and>
          render h (docRef this) out m = Inl e"
    unfolding transformMimeTypes_transformWith
    using transformWith_Inl_explicit set_sortedMimeTypesFor by fastforce
next
  assume "sortedMimeTypesFor P (controller_outputDisplayOrder controller) order out = pre @ mime # post \<and>
    (\<forall>m \<in> set pre. \<forall>h hs. controller_findBestMatchedRenderer controller m = h # hs \<longrightarrow>
        (\<exists>html. render h document out m = Inr html)) \<and>
    controller_findBestMatchedRenderer controller mime = handler0' # handlers' \<and>
    render handler0' document out mime = Inl e"
  then show "controller_transformMimeTypes P controller document order out =
        (Inl e,
         map (\<lambda>m. (handle (hd (controller_findBestMatchedRenderer controller m)), m))
           (filter (\<lambda>m. controller_findBestMatchedRenderer controller m \<noteq> []) pre) @
         [(handle handler0', mime)])"
    unfolding controller_transformMimeTypes_transformWith
    by (intro transformWith_throw_explicit[where post = post and ?hs0.0 = handlers']) blast+
next
  assume "controller_transformMimeTypes P controller document order out = (Inl e, calls')"
  then show "\<exists>m \<in> set (object_keys (data out)). \<exists>h hs.
          controller_findBestMatchedRenderer controller m = h # hs \<and>
          render h document out m = Inl e"
    unfolding controller_transformMimeTypes_transformWith
    using transformWith_Inl_explicit set_sortedMimeTypesFor by fastforce
qed


theorem transformMimeTypes_render_throws_witness:
  "sortedMimeTypesFor literalPlatform (outputDisplayOrder (renderingHandler exampleDocument))
      (doc_displayOrder exampleDocument) pngOutput = [''text/html''] @ ''image/png'' # [''text/plain''] \<and>
   sortedMimeTypesFor literalPlatform (controller_outputDisplayOrder exampleController) [] pngOutput
      = [''text/html''] @ ''image/png'' # [''text/plain''] \<and>
   findBestMatchedRenderer (renderingHandler exampleDocument) ''text/html'' =
     [htmlRenderer0, htmlRenderer1] \<and>
   render htmlRenderer0 (docRef exampleDocument) pngOutput ''text/html'' = Inr ''<b>rendered</b>'' \<and>
   findBestMatchedRenderer (renderingHandler exampleDocument) ''image/png'' = pngRenderer # [] \<and>
   controller_findBestMatchedRenderer exampleController ''image/png'' = pngRenderer # [] \<and>
   render pngRenderer (docRef exampleDocument) pngOutput ''image/png'' = Inl (Thrown ''render failed'') \<and>
   transformMimeTypes literalPlatform exampleDocument pngOutput =
     (Inl (Thrown ''render failed''), [(0, ''text/html''), (2, ''image/png'')]) \<and>
   controller_transformMimeTypes literalPlatform exampleController () [] pngOutput =
     (Inl (Thrown ''render failed''), [(0, ''text/html''), (2, ''image/png'')])"
proof -
  have s: "sortedMimeTypesFor literalPlatform (outputDisplayOrder (renderingHandler exampleDocument))
      (doc_displayOrder exampleDocument) pngOutput = [''text/html''] @ ''image/png'' # [''text/plain'']"
    "sortedMimeTypesFor literalPlatform (controller_outputDisplayOrder exampleController) [] pngOutput
      = [''text/html''] @ ''image/png'' # [''text/plain'']"
    by (simp_all add: example_document example_sorted)
  have p: "\<forall>m \<in> set [''text/html'']. \<forall>h hs.
       findBestMatchedRenderer (renderingHandler exampleDocument) m = h # hs \<longrightarrow>
       (\<exists>html. render h (docRef exampleDocument) pngOutput m = Inr html)"
    "\<forall>m \<in> set [''text/html'']. \<forall>h hs.
       controller_findBestMatchedRenderer exampleController m = h # hs \<longrightarrow>
       (\<exists>html. render h () pngOutput m = Inr html)"
    by (simp_all add: example_document example_find example_render)
  have f: "findBestMatchedRenderer (renderingHandler exampleDocument) ''text/html'' =
     [htmlRenderer0, htmlRenderer1]"
    "findBestMatchedRenderer (renderingHandler exampleDocument) ''image/png'' = pngRenderer # []"
    "controller_findBestMatchedRenderer exampleController ''image/png'' = pngRenderer # []"
    by (simp_all add: example_document example_find)
  have r: "render pngRenderer (docRef exampleDocument) pngOutput ''image/png'' = Inl (Thrown ''render failed'')"
    "render pngRenderer () pngOutput ''image/png'' = Inl (Thrown ''render failed'')"
    "render htmlRenderer0 (docRef exampleDocument) pngOutput ''text/html'' = Inr ''<b>rendered</b>''"
    by (simp_all add: example_document example_render)
  note t = transformMimeTypes_render_throws[of literalPlatform exampleDocument pngOutput
          "[''text/html'']" "''image/png''" "[''text/plain'']" pngRenderer "[]"
          "Thrown ''render failed''" "[]" exampleController "[]" "()" pngRenderer "[]" "[]"]
  from t s(1) p(1) f(2) r(1)
  have "transformMimeTypes literalPlatform exampleDocument pngOutput =
        (Inl (Thrown ''render failed''),
         map (\<lambda>m. (handle (hd (findBestMatchedRenderer (renderingHandler exampleDocument) m)), m))
           (filter (\<lambda>m. findBestMatchedRenderer (renderingHandler exampleDocument) m \<noteq> [])
              [''text/html'']) @
         [(handle pngRenderer, ''image/png'')])" by blast
  then have c1: "transformMimeTypes literalPlatform exampleDocument pngOutput =
     (Inl (Thrown ''render failed''), [(0, ''text/html''), (2, ''image/png'')])"
    by (simp add: f example_handles)
  from t s(2) p(2) f(3) r(2)
  have "controller_transformMimeTypes literalPlatform exampleController () [] pngOutput =
        (Inl (Thrown ''render failed''),
         map (\<lambda>m. (handle (hd (controller_findBestMatchedRenderer exampleController m)), m))
           (filter (\<lambda>m. controller_findBestMatchedRenderer exampleController m \<noteq> [])
              [''text/html'']) @
         [(handle pngRenderer, ''image/png'')])" by blast
  then have c2: "controller_transformMimeTypes literalPlatform exampleController () [] pngOutput =
     (Inl (Thrown ''render failed''), [(0, ''text/html''), (2, ''image/png'')])"
    by (simp add: example_find example_handles)
  from s f r(1,3) c1 c2 show ?thesis by blast
qed

text \<open>
  C8. The record that \<open>transformMimeTypes\<close> (and \<open>_transformMimeTypes\<close>) returns has the
  \<open>outputKind\<close> and the \<open>data\<close> of the output it was given, as they are, next to the
  list of candidates that the \<open>forEach\<close> has built, and its \<open>pickedMimeTypeIndex\<close> is 0.
\<close>

theorem transformMimeTypes_frame:
  "(transformMimeTypes P this out = (Inr ret, calls) \<longrightarrow>
      outputKind ret = outputKind out \<and> data ret = data out \<and> pickedMimeTypeIndex ret = 0 \<and>
      orderMimeTypes_forEach (findBestMatchedRenderer (renderingHandler this)) (docRef this) out
        (sortedMimeTypesFor P (outputDisplayOrder (renderingHandler this)) (doc_displayOrder this) out)
        [] [] = (Inr (orderedMimeTypes ret), calls)) \<and>
   (controller_transformMimeTypes P controller document order out = (Inr ret', calls') \<longrightarrow>
      outputKind ret' = outputKind out \<and> data ret' = data out \<and> pickedMimeTypeIndex ret' = 0 \<and>
      orderMimeTypes_forEach (controller_findBestMatchedRenderer controller) document out
        (sortedMimeTypesFor P (controller_outputDisplayOrder controller) order out)
        [] [] = (Inr (orderedMimeTypes ret'), calls'))"
  by (auto simp: transformMimeTypes_def controller_transformMimeTypes_def
        split: prod.splits sum.splits)

theorem transformMimeTypes_frame_witness:
  "transformMimeTypes literalPlatform exampleDocument htmlOutput =
     (Inr htmlTransformed, [(0, ''text/html'')]) \<and>
   controller_transformMimeTypes literalPlatform exampleController () [] htmlOutput =
     (Inr htmlTransformed, [(0, ''text/html'')]) \<and>
   outputKind htmlTransformed = outputKind htmlOutput \<and> data htmlTransformed = data htmlOutput \<and>
   pickedMimeTypeIndex htmlTransformed = 0"
proof -
  have ev: "transformMimeTypes literalPlatform exampleDocument htmlOutput =
     (Inr htmlTransformed, [(0, ''text/html'')])"
    "controller_transformMimeTypes literalPlatform exampleController () [] htmlOutput =
     (Inr htmlTransformed, [(0, ''text/html'')])"
    by (rule example_transform_html)+
  from transformMimeTypes_frame[of literalPlatform exampleDocument htmlOutput
          htmlTransformed "[(0, ''text/html'')]" exampleController "()" "[]"
          htmlTransformed "[(0, ''text/html'')]"] ev
  show ?thesis by blast
qed

section \<open>The callers: what they send, and where they stop\<close>

lemma transformOutput_Inr:
  "transformOutput tf out rs = (Inr (sent, rs'), c) \<Longrightarrow> sentFor tf out sent \<and> passes tf out"
  by (cases out)
     (auto simp: sentFor_def passes_def Let_def split: if_splits prod.splits sum.splits)

lemma transformOutput_passes:
  "passes tf out \<Longrightarrow> \<exists>sent rs' c. transformOutput tf out rs = (Inr (sent, rs'), c)"
  by (cases out)
     (auto simp: passes_def Let_def split: if_splits prod.splits sum.splits)

lemma transformOutput_TypeError:
  "outputKind d = Rich \<Longrightarrow> fst (tf d) = Inr ret \<Longrightarrow>
     \<not> pickedMimeTypeIndex ret < length (orderedMimeTypes ret) \<Longrightarrow>
     fst (transformOutput tf (DisplayOutput d) rs) = Inl TypeError"
  by (auto split: prod.splits sum.splits)

lemma transformOutputs_Inr:
  "transformOutputs tf outs rs = (Inr (sents, rs'), c) \<Longrightarrow>
     list_all2 (sentFor tf) outs sents \<and> (\<forall>out \<in> set outs. passes tf out)"
proof (induction outs arbitrary: rs sents rs' c)
  case Nil
  then show ?case by simp
next
  case (Cons out outs)
  from Cons.prems obtain s r1 c1 ss r2 c2 where
    h: "transformOutput tf out rs = (Inr (s, r1), c1)"
    and t: "transformOutputs tf outs r1 = (Inr (ss, r2), c2)" and e: "sents = s # ss"
    by (auto split: prod.splits sum.splits)
  from transformOutput_Inr[OF h] Cons.IH[OF t] e show ?case by simp
qed

lemma transformOutputs_passes:
  "\<forall>out \<in> set outs. passes tf out \<Longrightarrow>
     \<exists>sents rs' c. transformOutputs tf outs rs = (Inr (sents, rs'), c)"
proof (induction outs arbitrary: rs)
  case Nil
  then show ?case by simp
next
  case (Cons out outs)
  from Cons.prems obtain s r1 c1 where h: "transformOutput tf out rs = (Inr (s, r1), c1)"
    using transformOutput_passes[of tf out rs] by auto
  from Cons.prems Cons.IH[of r1] obtain ss r2 c2 where
    "transformOutputs tf outs r1 = (Inr (ss, r2), c2)" by auto
  with h show ?case by simp
qed

lemma transformOutputs_first_failure:
  assumes "\<forall>out \<in> set pre. passes tf out" and "\<And>rs. fst (transformOutput tf x rs) = Inl e"
  shows "fst (transformOutputs tf (pre @ x # post) rs) = Inl e"
  using assms(1)
proof (induction pre arbitrary: rs)
  case Nil
  from assms(2)[of rs] show ?case by (auto split: prod.splits sum.splits)
next
  case (Cons out pre)
  from Cons.prems obtain s r1 c1 where h: "transformOutput tf out rs = (Inr (s, r1), c1)"
    using transformOutput_passes[of tf out rs] by auto
  from Cons.prems Cons.IH[of r1] have "fst (transformOutputs tf (pre @ x # post) r1) = Inl e"
    by simp
  with h show ?case by (auto split: prod.splits sum.splits)
qed

lemma outputDtos_map_Inr:
  "outputDtos_map tf diffs rs = (Inr (dtos, rs'), c) \<Longrightarrow>
     list_all2 (\<lambda>d dto. fst dto = start d \<and> fst (snd dto) = deleteCount d \<and>
                 list_all2 (sentFor tf) (toInsert d) (snd (snd dto))) diffs dtos"
proof (induction diffs arbitrary: rs dtos rs' c)
  case Nil
  then show ?case by simp
next
  case (Cons d diffs)
  from Cons.prems obtain outs r1 c1 ds r2 c2 where
    h: "transformOutputs tf (toInsert d) rs = (Inr (outs, r1), c1)"
    and t: "outputDtos_map tf diffs r1 = (Inr (ds, r2), c2)"
    and e: "dtos = (start d, deleteCount d, outs) # ds"
    by (auto split: prod.splits sum.splits)
  from transformOutputs_Inr[OF h] Cons.IH[OF t] e show ?case by simp
qed

lemma outputDtos_map_passes:
  "\<forall>d \<in> set diffs. \<forall>out \<in> set (toInsert d). passes tf out \<Longrightarrow>
     \<exists>dtos rs' c. outputDtos_map tf diffs rs = (Inr (dtos, rs'), c)"
proof (induction diffs arbitrary: rs)
  case Nil
  then show ?case by simp
next
  case (Cons d diffs)
  from Cons.prems obtain outs r1 c1 where
    h: "transformOutputs tf (toInsert d) rs = (Inr (outs, r1), c1)"
    using transformOutputs_passes[of "toInsert d" tf rs] by auto
  from Cons.prems Cons.IH[of r1] obtain ds r2 c2 where
    "outputDtos_map tf diffs r1 = (Inr (ds, r2), c2)" by auto
  with h show ?case by simp
qed

lemma outputDtos_map_first_failure:
  assumes "\<forall>d \<in> set dpre. \<forall>out \<in> set (toInsert d). passes tf out"
    and "\<And>rs. fst (transformOutputs tf (toInsert d0) rs) = Inl e"
  shows "fst (outputDtos_map tf (dpre @ d0 # dpost) rs) = Inl e"
  using assms(1)
proof (induction dpre arbitrary: rs)
  case Nil
  from assms(2)[of rs] show ?case by (auto split: prod.splits sum.splits)
next
  case (Cons d dpre)
  from Cons.prems obtain outs r1 c1 where
    h: "transformOutputs tf (toInsert d) rs = (Inr (outs, r1), c1)"
    using transformOutputs_passes[of "toInsert d" tf rs] by auto
  from Cons.prems Cons.IH[of r1] have "fst (outputDtos_map tf (dpre @ d0 # dpost) r1) = Inl e"
    by simp
  with h show ?case by (auto split: prod.splits sum.splits)
qed

lemma cells_map_first_failure:
  assumes "\<forall>cell \<in> set cpre. \<forall>out \<in> set (outputs cell). passes tf out"
    and "\<And>rs. fst (transformOutputs tf (outputs cell0) rs) = Inl e"
  shows "fst (cells_map tf (cpre @ cell0 # cpost) rs) = Inl e"
  using assms(1)
proof (induction cpre arbitrary: rs)
  case Nil
  from assms(2)[of rs] show ?case by (auto split: prod.splits sum.splits)
next
  case (Cons cell cpre)
  from Cons.prems obtain outs r1 c1 where
    h: "transformOutputs tf (outputs cell) rs = (Inr (outs, r1), c1)"
    using transformOutputs_passes[of "outputs cell" tf rs] by auto
  from Cons.prems Cons.IH[of r1] have "fst (cells_map tf (cpre @ cell0 # cpost) r1) = Inl e"
    by simp
  with h show ?case by (auto split: prod.splits sum.splits)
qed

lemma transformWith_empty:
  "transformWith f d [] out =
     (Inr \<lparr>outputKind = outputKind out, data = data out, orderedMimeTypes = [],
           pickedMimeTypeIndex = 0\<rparr>, [])"
  by (simp add: transformWith_def)

lemma sortedMimeTypesFor_empty: "data out = [] \<Longrightarrow> sortedMimeTypesFor P c order out = []"
  by (simp add: sortedMimeTypesFor_def sortMimeTypes_def object_keys_def)

lemma transformMimeTypes_empty:
  "data out = [] \<Longrightarrow>
     transformMimeTypes P this out =
       (Inr \<lparr>outputKind = outputKind out, data = [], orderedMimeTypes = [],
             pickedMimeTypeIndex = 0\<rparr>, [])"
  "data out = [] \<Longrightarrow>
     controller_transformMimeTypes P controller document order out =
       (Inr \<lparr>outputKind = outputKind out, data = [], orderedMimeTypes = [],
             pickedMimeTypeIndex = 0\<rparr>, [])"
  by (simp_all add: transformMimeTypes_transformWith controller_transformMimeTypes_transformWith
        sortedMimeTypesFor_empty transformWith_empty)

lemma empty_rich_output_TypeError:
  assumes "outputKind out = Rich" "data out = []"
    and "tf out = (Inr \<lparr>outputKind = outputKind out, data = [], orderedMimeTypes = [],
             pickedMimeTypeIndex = 0\<rparr>, [])"
    and "\<forall>x \<in> set opre. passes tf x"
  shows "fst (transformOutputs tf (opre @ DisplayOutput out # opost) rs) = Inl TypeError"
proof (rule transformOutputs_first_failure[OF assms(4)])
  fix rs'
  show "fst (transformOutput tf (DisplayOutput out) rs') = Inl TypeError"
    by (rule transformOutput_TypeError[OF assms(1), where ret = "\<lparr>outputKind = outputKind out,
          data = [], orderedMimeTypes = [], pickedMimeTypeIndex = 0\<rparr>"])
       (simp_all add: assms(3))
qed


lemma eventuallyUpdateCellOutputs_Inl:
  "fst (outputDtos_map (transformMimeTypes P this) diffs []) = Inl e \<Longrightarrow>
     fst (eventuallyUpdateCellOutputs P this cell diffs) = Inl e"
  by (auto simp: eventuallyUpdateCellOutputs_def split: prod.splits sum.splits)

lemma resolveNotebookData_Inl:
  assumes "notebookContentProviders controller view = Some provider"
    and "documents controller resource = Some document"
    and "openNotebook provider resource = Inr rawCells"
    and "fst (cells_map
               (controller_transformMimeTypes P controller document
                  (case displayOrder (notebook_metadata rawCells) of
                     None \<Rightarrow> [] | Some order \<Rightarrow> order))
               (cells rawCells) []) = Inl e"
  shows "fst (resolveNotebookData P controller view resource) = Inl e"
  using assms by (auto simp: resolveNotebookData_def split: prod.splits sum.splits)

text \<open>
  C9. For a rich output whose \<open>data\<close> has no keys, \<open>transformMimeTypes\<close> (and
  \<open>_transformMimeTypes\<close>) returns the empty list of candidates with
  \<open>pickedMimeTypeIndex\<close> 0, which is no index of that list. The callers read
  \<open>orderedMimeTypes[pickedMimeTypeIndex].isResolved\<close> of what is returned:
  \<open>eventuallyUpdateCellOutputs\<close> and \<open>$resolveNotebookData\<close>, on reaching such an output
  (everything before it having passed), read a property of a missing element, a
  \<open>TypeError\<close>, and end with it.
\<close>

theorem empty_rich_output_picked_index:
  "(data out = [] \<longrightarrow>
      transformMimeTypes P this out =
        (Inr \<lparr>outputKind = outputKind out, data = [], orderedMimeTypes = [],
              pickedMimeTypeIndex = 0\<rparr>, []) \<and>
      controller_transformMimeTypes P controller document order out =
        (Inr \<lparr>outputKind = outputKind out, data = [], orderedMimeTypes = [],
              pickedMimeTypeIndex = 0\<rparr>, [])) \<and>
   (data out = [] \<and>
    (transformMimeTypes P this out = (Inr ret, calls) \<or>
     controller_transformMimeTypes P controller document order out = (Inr ret, calls)) \<longrightarrow>
      orderedMimeTypes ret = [] \<and> pickedMimeTypeIndex ret = 0 \<and>
      \<not> pickedMimeTypeIndex ret < length (orderedMimeTypes ret)) \<and>
   (outputKind out = Rich \<and> data out = [] \<and>
    (\<forall>d \<in> set dpre. \<forall>x \<in> set (toInsert d). passes (transformMimeTypes P this) x) \<and>
    (\<forall>x \<in> set opre. passes (transformMimeTypes P this) x) \<longrightarrow>
      fst (eventuallyUpdateCellOutputs P this cell
             (dpre @ \<lparr>start = st, deleteCount = dc,
                      toInsert = opre @ DisplayOutput out # opost\<rparr> # dpost)) = Inl TypeError) \<and>
   (outputKind out = Rich \<and> data out = [] \<and>
    notebookContentProviders controller view = Some provider \<and>
    documents controller resource = Some document \<and>
    openNotebook provider resource = Inr rawCells \<and>
    cells rawCells = cpre @ cell0 # cpost \<and>
    outputs cell0 = opre @ DisplayOutput out # opost \<and>
    (\<forall>c \<in> set cpre. \<forall>x \<in> set (outputs c).
        passes (controller_transformMimeTypes P controller document
                 (case displayOrder (notebook_metadata rawCells) of
                    None \<Rightarrow> [] | Some order \<Rightarrow> order)) x) \<and>
    (\<forall>x \<in> set opre.
        passes (controller_transformMimeTypes P controller document
                 (case displayOrder (notebook_metadata rawCells) of
                    None \<Rightarrow> [] | Some order \<Rightarrow> order)) x) \<longrightarrow>
      fst (resolveNotebookData P controller view resource) = Inl TypeError)"
proof (intro conjI impI)
  assume "data out = []"
  then show "transformMimeTypes P this out =
        (Inr \<lparr>outputKind = outputKind out, data = [], orderedMimeTypes = [],
              pickedMimeTypeIndex = 0\<rparr>, [])"
    by (rule transformMimeTypes_empty)
next
  assume "data out = []"
  then show "controller_transformMimeTypes P controller document order out =
        (Inr \<lparr>outputKind = outputKind out, data = [], orderedMimeTypes = [],
              pickedMimeTypeIndex = 0\<rparr>, [])"
    by (rule transformMimeTypes_empty)
next
  assume a: "data out = [] \<and>
    (transformMimeTypes P this out = (Inr ret, calls) \<or>
     controller_transformMimeTypes P controller document order out = (Inr ret, calls))"
  then have r: "ret = \<lparr>outputKind = outputKind out, data = [], orderedMimeTypes = [],
              pickedMimeTypeIndex = 0\<rparr>"
    using transformMimeTypes_empty(1)[of out P this]
      transformMimeTypes_empty(2)[of out P controller document order]
    by auto
  show "orderedMimeTypes ret = []" by (simp add: r)
  show "pickedMimeTypeIndex ret = 0" by (simp add: r)
  show "\<not> pickedMimeTypeIndex ret < length (orderedMimeTypes ret)" by (simp add: r)
next
  assume a: "outputKind out = Rich \<and> data out = [] \<and>
    (\<forall>d \<in> set dpre. \<forall>x \<in> set (toInsert d). passes (transformMimeTypes P this) x) \<and>
    (\<forall>x \<in> set opre. passes (transformMimeTypes P this) x)"
  let ?d0 = "\<lparr>start = st, deleteCount = dc, toInsert = opre @ DisplayOutput out # opost\<rparr>"
  have "fst (transformOutputs (transformMimeTypes P this) (toInsert ?d0) rs) = Inl TypeError" for rs
    using a empty_rich_output_TypeError[of out "transformMimeTypes P this" opre opost rs]
    by (simp add: transformMimeTypes_empty)
  then have "fst (outputDtos_map (transformMimeTypes P this) (dpre @ ?d0 # dpost) []) = Inl TypeError"
    using a by (intro outputDtos_map_first_failure) blast+
  then show "fst (eventuallyUpdateCellOutputs P this cell (dpre @ ?d0 # dpost)) = Inl TypeError"
    by (rule eventuallyUpdateCellOutputs_Inl)
next
  let ?tf = "controller_transformMimeTypes P controller document
                 (case displayOrder (notebook_metadata rawCells) of
                    None \<Rightarrow> [] | Some order \<Rightarrow> order)"
  assume a: "outputKind out = Rich \<and> data out = [] \<and>
    notebookContentProviders controller view = Some provider \<and>
    documents controller resource = Some document \<and>
    openNotebook provider resource = Inr rawCells \<and>
    cells rawCells = cpre @ cell0 # cpost \<and>
    outputs cell0 = opre @ DisplayOutput out # opost \<and>
    (\<forall>c \<in> set cpre. \<forall>x \<in> set (outputs c). passes ?tf x) \<and>
    (\<forall>x \<in> set opre. passes ?tf x)"
  have "fst (transformOutputs ?tf (outputs cell0) rs) = Inl TypeError" for rs
    using a empty_rich_output_TypeError[of out ?tf opre opost rs]
    by (simp add: transformMimeTypes_empty)
  then have "fst (cells_map ?tf (cpre @ cell0 # cpost) []) = Inl TypeError"
    using a by (intro cells_map_first_failure) blast+
  with a show "fst (resolveNotebookData P controller view resource) = Inl TypeError"
    by (intro resolveNotebookData_Inl[where provider = provider and document = document
          and rawCells = rawCells]) simp_all
qed

lemma example_callers:
  "notebookContentProviders exampleController ''example'' = Some exampleProvider"
  "documents exampleController ''file:///nb'' = Some ()"
  "openNotebook exampleProvider ''file:///nb'' = Inr exampleNotebook"
  "cells exampleNotebook = [] @ exampleCellData # []"
  "outputs exampleCellData = [] @ DisplayOutput emptyOutput # []"
  "outputKind emptyOutput = Rich" "data emptyOutput = []"
  by (simp_all add: exampleController_def exampleProvider_def exampleOpenNotebook_def
        exampleNotebook_def exampleCellData_def emptyOutput_def)

theorem empty_rich_output_picked_index_witness:
  "outputKind emptyOutput = Rich \<and> data emptyOutput = [] \<and>
   transformMimeTypes literalPlatform exampleDocument emptyOutput =
     (Inr \<lparr>outputKind = Rich, data = [], orderedMimeTypes = [], pickedMimeTypeIndex = 0\<rparr>, []) \<and>
   controller_transformMimeTypes literalPlatform exampleController () [] emptyOutput =
     (Inr \<lparr>outputKind = Rich, data = [], orderedMimeTypes = [], pickedMimeTypeIndex = 0\<rparr>, []) \<and>
   fst (eventuallyUpdateCellOutputs literalPlatform exampleDocument exampleCell emptyDiffs)
     = Inl TypeError \<and>
   notebookContentProviders exampleController ''example'' = Some exampleProvider \<and>
   documents exampleController ''file:///nb'' = Some () \<and>
   openNotebook exampleProvider ''file:///nb'' = Inr exampleNotebook \<and>
   cells exampleNotebook = [exampleCellData] \<and>
   outputs exampleCellData = [DisplayOutput emptyOutput] \<and>
   fst (resolveNotebookData literalPlatform exampleController ''example'' ''file:///nb'')
     = Inl TypeError"
proof -
  note t = empty_rich_output_picked_index[where out = emptyOutput and P = literalPlatform
      and this = exampleDocument and controller = exampleController and document = "()"
      and order = "[]" and dpre = "[]" and opre = "[]" and opost = "[]" and dpost = "[]"
      and st = 0 and dc = 0 and cell = exampleCell and view = "''example''"
      and resource = "''file:///nb''" and provider = exampleProvider
      and rawCells = exampleNotebook and cpre = "[]" and ?cell0.0 = exampleCellData
      and cpost = "[]"]
  from t example_callers
  have a: "transformMimeTypes literalPlatform exampleDocument emptyOutput =
     (Inr \<lparr>outputKind = outputKind emptyOutput, data = [], orderedMimeTypes = [],
           pickedMimeTypeIndex = 0\<rparr>, [])"
    "controller_transformMimeTypes literalPlatform exampleController () [] emptyOutput =
     (Inr \<lparr>outputKind = outputKind emptyOutput, data = [], orderedMimeTypes = [],
           pickedMimeTypeIndex = 0\<rparr>, [])"
    by blast+
  from t example_callers(6,7)
  have b: "fst (eventuallyUpdateCellOutputs literalPlatform exampleDocument exampleCell
             ([] @ \<lparr>start = 0, deleteCount = 0,
                     toInsert = [] @ DisplayOutput emptyOutput # []\<rparr> # [])) = Inl TypeError"
    by simp
  from t example_callers
  have c: "fst (resolveNotebookData literalPlatform exampleController ''example'' ''file:///nb'')
     = Inl TypeError"
    by simp
  from a b c example_callers show ?thesis by (simp add: emptyDiffs_def)
qed

text \<open>
  C10, as the code has it. Whenever \<open>eventuallyUpdateCellOutputs\<close> sends, what it sends
  has one splice for each splice it was given, in the same order and with the same
  \<open>start\<close> and \<open>deleteCount\<close>; the outputs of a splice are those it was to insert,
  one for one, a rich output replaced by the result of \<open>transformMimeTypes\<close> for it and
  every other output passed on as it is. It sends for every list of splices in which each
  rich output to insert passes: its transform returns, with a picked index inside the
  list of candidates.
\<close>

theorem eventuallyUpdateCellOutputs_splices:
  "(eventuallyUpdateCellOutputs P this cell diffs = (Inr args, calls) \<longrightarrow>
      list_all2
        (\<lambda>d dto. fst dto = start d \<and> fst (snd dto) = deleteCount d \<and>
           list_all2 (sentFor (transformMimeTypes P this)) (toInsert d) (snd (snd dto)))
        diffs (arg_splices args)) \<and>
   ((\<forall>d \<in> set diffs. \<forall>out \<in> set (toInsert d). passes (transformMimeTypes P this) out) \<longrightarrow>
      (\<exists>args calls. eventuallyUpdateCellOutputs P this cell diffs = (Inr args, calls)))"
proof (intro conjI impI)
  assume "eventuallyUpdateCellOutputs P this cell diffs = (Inr args, calls)"
  then obtain dtos rs where
    m: "outputDtos_map (transformMimeTypes P this) diffs [] = (Inr (dtos, rs), calls)"
    and a: "arg_splices args = dtos"
    by (auto simp: eventuallyUpdateCellOutputs_def split: prod.splits sum.splits)
  from outputDtos_map_Inr[OF m] a
  show "list_all2
        (\<lambda>d dto. fst dto = start d \<and> fst (snd dto) = deleteCount d \<and>
           list_all2 (sentFor (transformMimeTypes P this)) (toInsert d) (snd (snd dto)))
        diffs (arg_splices args)" by simp
next
  assume "\<forall>d \<in> set diffs. \<forall>out \<in> set (toInsert d). passes (transformMimeTypes P this) out"
  from outputDtos_map_passes[OF this, of "[]"]
  show "\<exists>args calls. eventuallyUpdateCellOutputs P this cell diffs = (Inr args, calls)"
    by (auto simp: eventuallyUpdateCellOutputs_def)
qed

lemma example_fields:
  "viewType exampleDocument = ''example''" "uri exampleDocument = ''file:///nb''"
  "cell_handle exampleCell = 7" "outputKind htmlOutput = Rich"
  "pickedMimeTypeIndex htmlTransformed = 0"
  "orderedMimeTypes htmlTransformed ! 0 =
     \<lparr>mimeType = ''text/html'', isResolved = True, rendererId = Some 0,
      output' = Some ''<b>rendered</b>''\<rparr>"
  "length (orderedMimeTypes htmlTransformed) = 5"
  by (simp_all add: exampleDocument_def exampleCell_def htmlOutput_def htmlTransformed_def)

lemma example_eventuallyUpdateCellOutputs:
  "eventuallyUpdateCellOutputs literalPlatform exampleDocument exampleCell exampleDiffs =
     (Inr exampleArgs, [(0, ''text/html'')])"
  by (simp add: eventuallyUpdateCellOutputs_def exampleDiffs_def example_transform_html
        exampleArgs_def example_fields set_add_def)

theorem eventuallyUpdateCellOutputs_splices_witness:
  "eventuallyUpdateCellOutputs literalPlatform exampleDocument exampleCell exampleDiffs =
     (Inr exampleArgs, [(0, ''text/html'')]) \<and>
   list_all2
     (\<lambda>d dto. fst dto = start d \<and> fst (snd dto) = deleteCount d \<and>
        list_all2 (sentFor (transformMimeTypes literalPlatform exampleDocument)) (toInsert d)
          (snd (snd dto)))
     exampleDiffs (arg_splices exampleArgs) \<and>
   arg_splices exampleArgs =
     [(2, 1, [ForwardedOutput (StreamOutput ''4''), TransformedDisplayOutput htmlTransformed]),
      (5, 0, [ForwardedOutput (ErrorOutput (Some ''NameError'') (Some ''x'') None)])]"
proof -
  have ev: "eventuallyUpdateCellOutputs literalPlatform exampleDocument exampleCell exampleDiffs =
     (Inr exampleArgs, [(0, ''text/html'')])"
    by (rule example_eventuallyUpdateCellOutputs)
  from eventuallyUpdateCellOutputs_splices[of literalPlatform exampleDocument exampleCell
         exampleDiffs exampleArgs "[(0, ''text/html'')]"] ev
  have "list_all2
     (\<lambda>d dto. fst dto = start d \<and> fst (snd dto) = deleteCount d \<and>
        list_all2 (sentFor (transformMimeTypes literalPlatform exampleDocument)) (toInsert d)
          (snd (snd dto)))
     exampleDiffs (arg_splices exampleArgs)" by blast
  with ev show ?thesis by (simp add: exampleArgs_def)
qed

theorem eventuallyUpdateCellOutputs_splices_counterexample:
  "eventuallyUpdateCellOutputs literalPlatform exampleDocument exampleCell
     [\<lparr>start = 0, deleteCount = 0, toInsert = [DisplayOutput pngOutput]\<rparr>]
     = (Inl (Thrown ''render failed''), [(0, ''text/html''), (2, ''image/png'')]) \<and>
   eventuallyUpdateCellOutputs literalPlatform exampleDocument exampleCell emptyDiffs
     = (Inl TypeError, []) \<and>
   length emptyDiffs = 1"
proof -
  have k: "outputKind pngOutput = Rich" "outputKind emptyOutput = Rich"
    by (simp_all add: pngOutput_def emptyOutput_def)
  have a: "eventuallyUpdateCellOutputs literalPlatform exampleDocument exampleCell
     [\<lparr>start = 0, deleteCount = 0, toInsert = [DisplayOutput pngOutput]\<rparr>]
     = (Inl (Thrown ''render failed''), [(0, ''text/html''), (2, ''image/png'')])"
    by (simp add: eventuallyUpdateCellOutputs_def example_transform_png k)
  have b: "eventuallyUpdateCellOutputs literalPlatform exampleDocument exampleCell emptyDiffs
     = (Inl TypeError, [])"
    by (simp add: eventuallyUpdateCellOutputs_def emptyDiffs_def example_transform_empty k)
  from a b show ?thesis by (simp add: emptyDiffs_def)
qed

end
